theory Spec2Isabelle
  imports Main "HOL-Library.AList" "HOL-Library.Multiset"
begin

section \<open>Common helpers\<close>

text \<open>
  Amounts of money and priorities are TypeScript \<^verbatim>\<open>number\<close>s that the code only adds,
  subtracts and compares; they are modelled as \<^typ>\<open>int\<close>. Points in time
  (\<^verbatim>\<open>Date.now()\<close>, \<^verbatim>\<open>new Date()\<close>) are milliseconds, modelled as \<^typ>\<open>nat\<close> and
  passed to each operation as \<open>now\<close>. The random suffix
  \<^verbatim>\<open>Math.random().toString(36).substr(2, 9)\<close> of a generated id is passed as \<open>rnd\<close>.
\<close>

definition digitChar :: "nat \<Rightarrow> char" where
  "digitChar d = ''0123456789'' ! d"

text \<open>The decimal digits a template literal prints for a non-negative integer.\<close>

fun showNat :: "nat \<Rightarrow> string" where
  "showNat n = (if n < 10 then [digitChar n] else showNat (n div 10) @ [digitChar (n mod 10)])"

declare showNat.simps [simp del]

text \<open>
  \<^verbatim>\<open>Array.prototype.sort(compareFn)\<close> is a stable sort: an element goes before the first
  element of the sorted rest that the comparator does not put before it.
\<close>

fun insertBy :: "('a \<Rightarrow> 'a \<Rightarrow> int) \<Rightarrow> 'a \<Rightarrow> 'a list \<Rightarrow> 'a list" where
  "insertBy cmp x [] = [x]"
| "insertBy cmp x (y # ys) = (if cmp x y \<le> 0 then x # y # ys else y # insertBy cmp x ys)"

definition jsSort :: "('a \<Rightarrow> 'a \<Rightarrow> int) \<Rightarrow> 'a list \<Rightarrow> 'a list" where
  "jsSort cmp xs = foldr (insertBy cmp) xs []"

section \<open>SimpleAutomation (automation.ts)\<close>

datatype MatchStatus = ms_pending | ms_active | ms_completed

record MatchData =
  m_id :: string
  m_player1 :: string
  m_player2 :: string
  m_betAmount :: int
  m_winner :: "string option"
  m_status :: MatchStatus
  m_startTime :: nat
  m_endTime :: "nat option"

datatype WalletTxType = wt_deposit | wt_withdrawal | wt_bet | wt_win | wt_fee

datatype WalletTxStatus = wt_pending | wt_completed | wt_failed

record WalletTransaction =
  wt_id :: string
  wt_userId :: string
  wt_type :: WalletTxType
  wt_amount :: int
  wt_status :: WalletTxStatus
  wt_timestamp :: nat

text \<open>
  The three private fields of the class: \<^verbatim>\<open>matches\<close> and \<^verbatim>\<open>wallets\<close> are
  \<^verbatim>\<open>Map\<close>s, \<^verbatim>\<open>transactions\<close> is an array that only grows by \<^verbatim>\<open>push\<close>.
\<close>

record SimpleAutomation =
  matches :: "string \<rightharpoonup> MatchData"
  wallets :: "string \<rightharpoonup> int"
  transactions :: "WalletTransaction list"

definition newSimpleAutomation :: SimpleAutomation where
  "newSimpleAutomation = \<lparr> matches = Map.empty, wallets = Map.empty, transactions = [] \<rparr>"

text \<open>\<^verbatim>\<open>this.wallets.get(userId) || 0\<close>: a missing entry and a zero balance both read as 0.\<close>

definition getWalletBalance :: "SimpleAutomation \<Rightarrow> string \<Rightarrow> int" where
  "getWalletBalance s userId = (case wallets s userId of None \<Rightarrow> 0 | Some b \<Rightarrow> b)"

definition creditToWallet :: "SimpleAutomation \<Rightarrow> string \<Rightarrow> int \<Rightarrow> SimpleAutomation" where
  "creditToWallet s userId amount =
     (let currentBalance = getWalletBalance s userId
      in s\<lparr> wallets := (wallets s)(userId \<mapsto> currentBalance + amount) \<rparr>)"

text \<open>Returns the boolean of the source together with the state after the call.\<close>

definition deductFromWallet :: "SimpleAutomation \<Rightarrow> string \<Rightarrow> int \<Rightarrow> bool \<times> SimpleAutomation" where
  "deductFromWallet s userId amount =
     (let currentBalance = getWalletBalance s userId
      in if currentBalance \<ge> amount
         then (True, s\<lparr> wallets := (wallets s)(userId \<mapsto> currentBalance - amount) \<rparr>)
         else (False, s))"

definition logTransaction :: "SimpleAutomation \<Rightarrow> WalletTransaction \<Rightarrow> SimpleAutomation" where
  "logTransaction s t = s\<lparr> transactions := transactions s @ [t] \<rparr>"

text \<open>
  \<^verbatim>\<open>createMatch\<close> stores the match, then calls \<^verbatim>\<open>deductFromWallet\<close> for each player
  and drops both results; it always returns the new id.
\<close>

definition createMatch ::
  "SimpleAutomation \<Rightarrow> string \<Rightarrow> string \<Rightarrow> int \<Rightarrow> nat \<Rightarrow> string \<Rightarrow> string \<times> SimpleAutomation" where
  "createMatch s player1 player2 betAmount now rnd =
     (let matchId = ''match_'' @ showNat now @ ''_'' @ rnd;
          match = \<lparr> m_id = matchId, m_player1 = player1, m_player2 = player2,
                    m_betAmount = betAmount, m_winner = None, m_status = ms_pending,
                    m_startTime = now, m_endTime = None \<rparr>;
          s1 = s\<lparr> matches := (matches s)(matchId \<mapsto> match) \<rparr>;
          s2 = snd (deductFromWallet s1 player1 betAmount);
          s3 = snd (deductFromWallet s2 player2 betAmount)
      in (matchId, s3))"

definition winnerPayout :: int where "winnerPayout = 16"
definition serverFee :: int where "serverFee = 4"

definition completeMatch :: "SimpleAutomation \<Rightarrow> string \<Rightarrow> string \<Rightarrow> nat \<Rightarrow> SimpleAutomation" where
  "completeMatch s matchId winnerId now =
     (case matches s matchId of
        None \<Rightarrow> s
      | Some match \<Rightarrow>
          (let match' = match\<lparr> m_winner := Some winnerId, m_status := ms_completed,
                                 m_endTime := Some now \<rparr>;
               s1 = s\<lparr> matches := (matches s)(matchId \<mapsto> match') \<rparr>;
               s2 = creditToWallet s1 winnerId winnerPayout;
               s3 = creditToWallet s2 ''developer'' serverFee;
               s4 = logTransaction s3
                      \<lparr> wt_id = ''win_'' @ matchId, wt_userId = winnerId, wt_type = wt_win,
                        wt_amount = winnerPayout, wt_status = wt_completed, wt_timestamp = now \<rparr>
           in logTransaction s4
                \<lparr> wt_id = ''fee_'' @ matchId, wt_userId = ''developer'', wt_type = wt_fee,
                  wt_amount = serverFee, wt_status = wt_completed, wt_timestamp = now \<rparr>))"

text \<open>\<^verbatim>\<open>filter\<close> by user, then \<^verbatim>\<open>sort\<close> with the comparator of the source, newest first.\<close>

definition getTransactionHistory :: "SimpleAutomation \<Rightarrow> string \<Rightarrow> WalletTransaction list" where
  "getTransactionHistory s userId =
     jsSort (\<lambda>a b. int (wt_timestamp b) - int (wt_timestamp a))
       (filter (\<lambda>t. wt_userId t = userId) (transactions s))"

definition initializeDeveloperWallet :: "SimpleAutomation \<Rightarrow> SimpleAutomation" where
  "initializeDeveloperWallet s = s\<lparr> wallets := (wallets s)(''developer'' \<mapsto> 10000) \<rparr>"

text \<open>
  The source's \<^verbatim>\<open>WalletTransaction\<close> has no \<^verbatim>\<open>matchId\<close> field: the only link from a
  ledger entry to its match is the id \<^verbatim>\<open>win_<matchId>\<close> or \<^verbatim>\<open>fee_<matchId>\<close> that
  \<^verbatim>\<open>completeMatch\<close> gives it. \<open>matchLedger\<close> selects the completed entries of a match
  by that id.
\<close>

definition matchLedger :: "SimpleAutomation \<Rightarrow> string \<Rightarrow> WalletTransaction list" where
  "matchLedger s matchId =
     filter (\<lambda>t. wt_status t = wt_completed \<and>
                 (wt_id t = ''win_'' @ matchId \<or> wt_id t = ''fee_'' @ matchId))
            (transactions s)"

text \<open>The states the class can be in: whatever its public methods make of a new instance.\<close>

inductive sa_reachable :: "SimpleAutomation \<Rightarrow> bool" where
  sa_new: "sa_reachable newSimpleAutomation"
| sa_createMatch:
    "sa_reachable s \<Longrightarrow> sa_reachable (snd (createMatch s player1 player2 betAmount now rnd))"
| sa_completeMatch: "sa_reachable s \<Longrightarrow> sa_reachable (completeMatch s matchId winnerId now)"
| sa_creditToWallet: "sa_reachable s \<Longrightarrow> sa_reachable (creditToWallet s userId amount)"
| sa_deductFromWallet: "sa_reachable s \<Longrightarrow> sa_reachable (snd (deductFromWallet s userId amount))"
| sa_initializeDeveloperWallet: "sa_reachable s \<Longrightarrow> sa_reachable (initializeDeveloperWallet s)"

subsection \<open>A concrete run\<close>

text \<open>
  Two players are credited 100 each, a match with the default bet of 10 is created at
  time 5 and completed for the first player at time 6.
\<close>

definition demo_funded :: SimpleAutomation where
  "demo_funded = creditToWallet (creditToWallet newSimpleAutomation ''alice'' 100) ''bob'' 100"

definition demo_matchId :: string where
  "demo_matchId = fst (createMatch demo_funded ''alice'' ''bob'' 10 5 ''k3x9q2m1z'')"

definition demo_created :: SimpleAutomation where
  "demo_created = snd (createMatch demo_funded ''alice'' ''bob'' 10 5 ''k3x9q2m1z'')"

definition demo_completed :: SimpleAutomation where
  "demo_completed = completeMatch demo_created demo_matchId ''alice'' 6"

text \<open>A player with 5 and a player with 100.\<close>

definition demo_poor :: SimpleAutomation where
  "demo_poor = creditToWallet (creditToWallet newSimpleAutomation ''carol'' 5) ''bob'' 100"

text \<open>A player with 15, who is then matched against himself with a bet of 10.\<close>

definition demo_dave :: SimpleAutomation where
  "demo_dave = creditToWallet newSimpleAutomation ''dave'' 15"

section \<open>EventProcessor (the second class of WalletProcessor.ts)\<close>














subsection \<open>Registries for concrete dispatches\<close>








section \<open>WalletProcessor (the first class of WalletProcessor.ts)\<close>

text \<open>
  \<^verbatim>\<open>Transaction\<close> is imported from \<^verbatim>\<open>@/types/game\<close>, which is not among the sources; the
  record has the fields that the two processors read or write. \<^verbatim>\<open>paymentMethod\<close>,
  \<^verbatim>\<open>bankDetails\<close> and \<^verbatim>\<open>metadata\<close> are only stored, never read, and are left out. The
  reason string of a failed transaction is a value of \<open>FailReason\<close>.
\<close>

datatype TxType = tx_deposit | tx_withdrawal | tx_bet | tx_win | tx_refund | tx_server_fee

datatype TxStatus = tx_pending | tx_completed | tx_failed | tx_review

datatype FailReason =
    InvalidAmount int | PaymentGatewayFailed | InsufficientBalance | TransactionTimeout
  | MaxRetriesExceeded

record Transaction =
  tx_id :: string
  tx_playerId :: string
  tx_type :: TxType
  tx_amount :: int
  tx_status :: TxStatus
  tx_timestamp :: nat
  tx_matchId :: "string option"
  tx_completedAt :: "nat option"
  tx_error :: "FailReason option"
  tx_retryCount :: "nat option"

text \<open>The configuration the constructor fixes.\<close>

definition minDeposit :: int where "minDeposit = 10"
definition maxDeposit :: int where "maxDeposit = 2000"
definition minWithdrawal :: int where "minWithdrawal = 10"
definition maxWithdrawal :: int where "maxWithdrawal = 2000"
definition autoApprovalLimit :: int where "autoApprovalLimit = 500"
definition developerWalletId :: string where "developerWalletId = ''dev_wallet_main''"

text \<open>
  Transactions are objects that the pending queues, the transaction map and the timer
  callbacks share by reference, and the code updates them in place. The model keeps them
  in a store \<open>heap\<close> from references to records; queues, map and callbacks hold
  references. The timers that \<^verbatim>\<open>setInterval\<close> and \<^verbatim>\<open>setTimeout\<close> have created and that
  have neither fired for the last time nor been cleared are the list \<open>wp_timers\<close>, by
  handle; \<open>wp_intervals\<close> is the processor's own map from a name to a handle.
\<close>

datatype TimerTask =
    DepositTicker | WithdrawalTicker | BalanceTicker | ValidationTicker | FeeTicker
  | CleanupTicker
  | ReviewApproval nat
  | BankTransferDone nat
  | RestartStart

record WalletProcessor =
  heap :: "nat \<Rightarrow> Transaction"
  nextRef :: nat
  wp_transactions :: "(string \<times> nat) list"
  playerBalances :: "string \<rightharpoonup> int"
  pendingDeposits :: "nat list"
  pendingWithdrawals :: "nat list"
  developerBalance :: int
  totalVolume :: int
  totalFees :: int
  wp_intervals :: "(string \<times> nat) list"
  wp_isRunning :: bool
  wp_timers :: "(nat \<times> TimerTask) list"
  nextHandle :: nat

definition isTicker :: "TimerTask \<Rightarrow> bool" where
  "isTicker task =
     (case task of ReviewApproval r \<Rightarrow> False | BankTransferDone r \<Rightarrow> False | RestartStart \<Rightarrow> False
      | _ \<Rightarrow> True)"

text \<open>\<^verbatim>\<open>setInterval\<close> and \<^verbatim>\<open>setTimeout\<close>: a new live timer under a fresh handle.\<close>

definition setTimer :: "WalletProcessor \<Rightarrow> TimerTask \<Rightarrow> WalletProcessor" where
  "setTimer s task =
     s\<lparr> wp_timers := wp_timers s @ [(nextHandle s, task)], nextHandle := nextHandle s + 1 \<rparr>"

text \<open>\<^verbatim>\<open>clearInterval\<close>, which clears timers of both kinds.\<close>

definition clearTimer :: "WalletProcessor \<Rightarrow> nat \<Rightarrow> WalletProcessor" where
  "clearTimer s h = s\<lparr> wp_timers := filter (\<lambda>entry. fst entry \<noteq> h) (wp_timers s) \<rparr>"

definition getPlayerBalance :: "WalletProcessor \<Rightarrow> string \<Rightarrow> int" where
  "getPlayerBalance s playerId = (case playerBalances s playerId of None \<Rightarrow> 0 | Some b \<Rightarrow> b)"

definition failTransaction :: "WalletProcessor \<Rightarrow> nat \<Rightarrow> FailReason \<Rightarrow> nat \<Rightarrow> WalletProcessor" where
  "failTransaction s t reason now =
     (let tx = (heap s t)\<lparr> tx_status := tx_failed, tx_error := Some reason,
                            tx_completedAt := Some now \<rparr>
      in s\<lparr> heap := (heap s)(t := tx),
            wp_transactions := AList.update (tx_id tx) t (wp_transactions s) \<rparr>)"

definition approveDeposit :: "WalletProcessor \<Rightarrow> nat \<Rightarrow> nat \<Rightarrow> WalletProcessor" where
  "approveDeposit s d now =
     (let deposit = heap s d;
          currentBalance = getPlayerBalance s (tx_playerId deposit);
          deposit' = deposit\<lparr> tx_status := tx_completed, tx_completedAt := Some now \<rparr>
      in s\<lparr> playerBalances :=
               (playerBalances s)(tx_playerId deposit \<mapsto> currentBalance + tx_amount deposit),
            heap := (heap s)(d := deposit'),
            wp_transactions := AList.update (tx_id deposit') d (wp_transactions s),
            totalVolume := totalVolume s + tx_amount deposit \<rparr>)"

text \<open>
  \<open>gatewayOk\<close> is the outcome of \<^verbatim>\<open>simulatePaymentGateway\<close>, which draws a random number.
  Nothing in the body can throw in this model, so the \<^verbatim>\<open>catch\<close> branch has no case.
\<close>

definition processDepositTransaction ::
  "WalletProcessor \<Rightarrow> nat \<Rightarrow> bool \<Rightarrow> nat \<Rightarrow> WalletProcessor" where
  "processDepositTransaction s d gatewayOk now =
     (let deposit = heap s d
      in if tx_amount deposit < minDeposit \<or> tx_amount deposit > maxDeposit
         then failTransaction s d (InvalidAmount (tx_amount deposit)) now
         else if gatewayOk then approveDeposit s d now
         else failTransaction s d PaymentGatewayFailed now)"

fun processDepositList ::
  "WalletProcessor \<Rightarrow> nat list \<Rightarrow> (nat \<Rightarrow> bool) \<Rightarrow> nat \<Rightarrow> nat \<Rightarrow> WalletProcessor" where
  "processDepositList s [] gateway k now = s"
| "processDepositList s (d # ds) gateway k now =
     processDepositList (processDepositTransaction s d (gateway k) now) ds gateway (k + 1) now"

text \<open>The \<open>k\<close>-th deposit of a tick meets the gateway outcome \<open>gateway k\<close>.\<close>

definition processAutomaticDeposits ::
  "WalletProcessor \<Rightarrow> (nat \<Rightarrow> bool) \<Rightarrow> nat \<Rightarrow> WalletProcessor" where
  "processAutomaticDeposits s gateway now =
     (if pendingDeposits s = [] then s
      else processDepositList (s\<lparr> pendingDeposits := [] \<rparr>) (pendingDeposits s) gateway 0 now)"

definition approveWithdrawal :: "WalletProcessor \<Rightarrow> nat \<Rightarrow> nat \<Rightarrow> WalletProcessor" where
  "approveWithdrawal s w now =
     (let withdrawal = heap s w;
          currentBalance = getPlayerBalance s (tx_playerId withdrawal);
          withdrawal' = withdrawal\<lparr> tx_status := tx_completed, tx_completedAt := Some now \<rparr>;
          s1 = s\<lparr> playerBalances :=
                    (playerBalances s)(tx_playerId withdrawal \<mapsto>
                       currentBalance + tx_amount withdrawal),
                  heap := (heap s)(w := withdrawal'),
                  wp_transactions := AList.update (tx_id withdrawal') w (wp_transactions s),
                  totalVolume := totalVolume s + \<bar>tx_amount withdrawal\<bar> \<rparr>
      in setTimer s1 (BankTransferDone w))"

definition queueForManualReview :: "WalletProcessor \<Rightarrow> nat \<Rightarrow> WalletProcessor" where
  "queueForManualReview s w =
     (let withdrawal' = (heap s w)\<lparr> tx_status := tx_review \<rparr>;
          s1 = s\<lparr> heap := (heap s)(w := withdrawal'),
                  wp_transactions := AList.update (tx_id withdrawal') w (wp_transactions s) \<rparr>
      in setTimer s1 (ReviewApproval w))"

definition processWithdrawalTransaction :: "WalletProcessor \<Rightarrow> nat \<Rightarrow> nat \<Rightarrow> WalletProcessor" where
  "processWithdrawalTransaction s w now =
     (let withdrawal = heap s w
      in if tx_amount withdrawal < minWithdrawal \<or> tx_amount withdrawal > maxWithdrawal
         then failTransaction s w (InvalidAmount (tx_amount withdrawal)) now
         else if getPlayerBalance s (tx_playerId withdrawal) < \<bar>tx_amount withdrawal\<bar>
         then failTransaction s w InsufficientBalance now
         else if \<bar>tx_amount withdrawal\<bar> \<le> autoApprovalLimit then approveWithdrawal s w now
         else queueForManualReview s w)"

definition processAutomaticWithdrawals :: "WalletProcessor \<Rightarrow> nat \<Rightarrow> WalletProcessor" where
  "processAutomaticWithdrawals s now =
     (if pendingWithdrawals s = [] then s
      else fold (\<lambda>w st. processWithdrawalTransaction st w now) (pendingWithdrawals s)
             (s\<lparr> pendingWithdrawals := [] \<rparr>))"

text \<open>
  \<^verbatim>\<open>synchronizeBalances\<close> compares the sum of the balances with the sum of the completed
  amounts and writes to the console; it changes nothing.
\<close>

definition synchronizeBalances :: "WalletProcessor \<Rightarrow> WalletProcessor" where
  "synchronizeBalances s = s"

definition retryTransaction :: "WalletProcessor \<Rightarrow> nat \<Rightarrow> nat \<Rightarrow> WalletProcessor" where
  "retryTransaction s t now =
     (let count = (case tx_retryCount (heap s t) of None \<Rightarrow> 0 | Some c \<Rightarrow> c) + 1;
          tx = (heap s t)\<lparr> tx_status := tx_pending, tx_retryCount := Some count \<rparr>;
          s1 = s\<lparr> heap := (heap s)(t := tx) \<rparr>
      in if count > 3 then failTransaction s1 t MaxRetriesExceeded now
         else if tx_type tx = tx_deposit then s1\<lparr> pendingDeposits := pendingDeposits s1 @ [t] \<rparr>
         else if tx_type tx = tx_withdrawal
         then s1\<lparr> pendingWithdrawals := pendingWithdrawals s1 @ [t] \<rparr>
         else s1)"

definition handleStuckTransaction :: "WalletProcessor \<Rightarrow> nat \<Rightarrow> nat \<Rightarrow> WalletProcessor" where
  "handleStuckTransaction s t now =
     (if tx_type (heap s t) = tx_deposit then retryTransaction s t now
      else failTransaction s t TransactionTimeout now)"

text \<open>
  \<^verbatim>\<open>validateTransactions\<close> walks the transaction map; the callbacks never add a key, since
  every entry is stored under the id of its transaction.
\<close>

definition validateTransactions :: "WalletProcessor \<Rightarrow> nat \<Rightarrow> WalletProcessor" where
  "validateTransactions s now =
     fold (\<lambda>entry st.
             if tx_status (heap st (snd entry)) = tx_pending \<and>
                now > tx_timestamp (heap st (snd entry)) + 300000
             then handleStuckTransaction st (snd entry) now else st)
          (wp_transactions s) s"

definition collectSystemFees :: "WalletProcessor \<Rightarrow> WalletProcessor" where
  "collectSystemFees s =
     (let feeTransactions =
            filter (\<lambda>r. tx_type (heap s r) = tx_server_fee \<and> tx_status (heap s r) = tx_pending)
                   (map snd (wp_transactions s));
          s1 = fold (\<lambda>r st. st\<lparr> developerBalance := developerBalance st + tx_amount (heap st r),
                                 heap := (heap st)(r := (heap st r)\<lparr> tx_status := tx_completed \<rparr>) \<rparr>)
                    feeTransactions s;
          total = sum_list (map (\<lambda>r. tx_amount (heap s r)) feeTransactions)
      in if total > 0 then s1\<lparr> totalFees := totalFees s1 + total \<rparr> else s1)"

definition cleanupWalletData :: "WalletProcessor \<Rightarrow> nat \<Rightarrow> WalletProcessor" where
  "cleanupWalletData s now =
     s\<lparr> wp_transactions :=
          filter (\<lambda>entry. \<not> (tx_status (heap s (snd entry)) = tx_completed \<and>
                              int (tx_timestamp (heap s (snd entry))) < int now - 2592000000))
                 (wp_transactions s) \<rparr>"

text \<open>The public methods. A new transaction object gets the next free reference.\<close>

definition processDeposit ::
  "WalletProcessor \<Rightarrow> string \<Rightarrow> int \<Rightarrow> nat \<Rightarrow> string \<Rightarrow> nat \<times> WalletProcessor" where
  "processDeposit s playerId amount now rnd =
     (let deposit = \<lparr> tx_id = ''dep_'' @ showNat now @ ''_'' @ rnd, tx_playerId = playerId,
                      tx_type = tx_deposit, tx_amount = amount, tx_status = tx_pending,
                      tx_timestamp = now, tx_matchId = None, tx_completedAt = None,
                      tx_error = None, tx_retryCount = None \<rparr>;
          d = nextRef s
      in (d, s\<lparr> heap := (heap s)(d := deposit), nextRef := d + 1,
                pendingDeposits := pendingDeposits s @ [d] \<rparr>))"

definition processWithdrawal ::
  "WalletProcessor \<Rightarrow> string \<Rightarrow> int \<Rightarrow> nat \<Rightarrow> string \<Rightarrow> nat \<times> WalletProcessor" where
  "processWithdrawal s playerId amount now rnd =
     (let withdrawal = \<lparr> tx_id = ''wd_'' @ showNat now @ ''_'' @ rnd, tx_playerId = playerId,
                         tx_type = tx_withdrawal, tx_amount = - amount, tx_status = tx_pending,
                         tx_timestamp = now, tx_matchId = None, tx_completedAt = None,
                         tx_error = None, tx_retryCount = None \<rparr>;
          w = nextRef s
      in (w, s\<lparr> heap := (heap s)(w := withdrawal), nextRef := w + 1,
                pendingWithdrawals := pendingWithdrawals s @ [w] \<rparr>))"

definition addServerFee :: "WalletProcessor \<Rightarrow> string \<Rightarrow> int \<Rightarrow> nat \<Rightarrow> WalletProcessor" where
  "addServerFee s matchId amount now =
     (let feeTransaction =
            \<lparr> tx_id = ''fee_'' @ matchId @ ''_'' @ showNat now, tx_playerId = developerWalletId,
              tx_type = tx_server_fee, tx_amount = amount, tx_status = tx_pending,
              tx_timestamp = now, tx_matchId = Some matchId, tx_completedAt = None,
              tx_error = None, tx_retryCount = None \<rparr>;
          r = nextRef s
      in s\<lparr> heap := (heap s)(r := feeTransaction), nextRef := r + 1,
            wp_transactions := AList.update (tx_id feeTransaction) r (wp_transactions s) \<rparr>)"

text \<open>Lifecycle: six tickers are created and entered in \<open>wp_intervals\<close>.\<close>

definition startAutomatedWalletProcessing :: "WalletProcessor \<Rightarrow> WalletProcessor" where
  "startAutomatedWalletProcessing s =
     (if wp_isRunning s then s
      else (let h = nextHandle s;
                s1 = s\<lparr> wp_isRunning := True \<rparr>;
                s2 = setTimer s1 DepositTicker;
                s3 = setTimer s2 WithdrawalTicker;
                s4 = setTimer s3 BalanceTicker;
                s5 = setTimer s4 ValidationTicker;
                s6 = setTimer s5 FeeTicker;
                s7 = setTimer s6 CleanupTicker
            in s7\<lparr> wp_intervals :=
                      AList.update ''cleanup'' (h + 5)
                        (AList.update ''fees'' (h + 4)
                          (AList.update ''validation'' (h + 3)
                            (AList.update ''balance'' (h + 2)
                              (AList.update ''withdrawals'' (h + 1)
                                (AList.update ''deposits'' h (wp_intervals s7)))))) \<rparr>))"

definition wp_stop :: "WalletProcessor \<Rightarrow> WalletProcessor" where
  "wp_stop s =
     (let s1 = s\<lparr> wp_isRunning := False \<rparr>;
          s2 = fold (\<lambda>entry st. clearTimer st (snd entry)) (wp_intervals s1) s1
      in s2\<lparr> wp_intervals := [] \<rparr>)"

definition wp_restart :: "WalletProcessor \<Rightarrow> WalletProcessor" where
  "wp_restart s = setTimer (wp_stop s) RestartStart"

definition newWalletProcessor :: WalletProcessor where
  "newWalletProcessor =
     startAutomatedWalletProcessing
       \<lparr> heap = (\<lambda>r. \<lparr> tx_id = [], tx_playerId = [], tx_type = tx_deposit, tx_amount = 0,
                       tx_status = tx_pending, tx_timestamp = 0, tx_matchId = None,
                         tx_completedAt = None, tx_error = None, tx_retryCount = None \<rparr>),
         nextRef = 0, wp_transactions = [], playerBalances = Map.empty, pendingDeposits = [],
         pendingWithdrawals = [], developerBalance = 10000, totalVolume = 0, totalFees = 0,
         wp_intervals = [], wp_isRunning = False, wp_timers = [], nextHandle = 0 \<rparr>"

text \<open>
  What a live timer does when it fires. A ticker stays live; a one-shot timer is removed
  before its callback runs. The callback of \<^verbatim>\<open>queueForManualReview\<close> approves the
  withdrawal if it is still in review; the one of \<^verbatim>\<open>simulateBankTransfer\<close> only logs.
\<close>

definition runTask :: "WalletProcessor \<Rightarrow> TimerTask \<Rightarrow> (nat \<Rightarrow> bool) \<Rightarrow> nat \<Rightarrow> WalletProcessor" where
  "runTask s task gateway now =
     (case task of
        DepositTicker \<Rightarrow> processAutomaticDeposits s gateway now
      | WithdrawalTicker \<Rightarrow> processAutomaticWithdrawals s now
      | BalanceTicker \<Rightarrow> synchronizeBalances s
      | ValidationTicker \<Rightarrow> validateTransactions s now
      | FeeTicker \<Rightarrow> collectSystemFees s
      | CleanupTicker \<Rightarrow> cleanupWalletData s now
      | ReviewApproval w \<Rightarrow>
          (if tx_status (heap s w) = tx_review then approveWithdrawal s w now else s)
      | BankTransferDone w \<Rightarrow> s
      | RestartStart \<Rightarrow> startAutomatedWalletProcessing s)"

definition fireTimer :: "WalletProcessor \<Rightarrow> nat \<Rightarrow> (nat \<Rightarrow> bool) \<Rightarrow> nat \<Rightarrow> WalletProcessor" where
  "fireTimer s h gateway now =
     (case map_of (wp_timers s) h of
        None \<Rightarrow> s
      | Some task \<Rightarrow>
          if isTicker task then runTask s task gateway now
          else runTask (clearTimer s h) task gateway now)"

text \<open>
  The states of a processor: a new instance, then any sequence of calls of its public
  methods and of firings of its live timers, at any times and with any gateway outcomes.
  The callers of \<^verbatim>\<open>processDeposit\<close> and \<^verbatim>\<open>processWithdrawal\<close> leave the transaction object
  they get back as it is.
\<close>

inductive wp_reachable :: "WalletProcessor \<Rightarrow> bool" where
  wp_new: "wp_reachable newWalletProcessor"
| wp_processDeposit:
    "wp_reachable s \<Longrightarrow> wp_reachable (snd (processDeposit s playerId amount now rnd))"
| wp_processWithdrawal:
    "wp_reachable s \<Longrightarrow> wp_reachable (snd (processWithdrawal s playerId amount now rnd))"
| wp_addServerFee: "wp_reachable s \<Longrightarrow> wp_reachable (addServerFee s matchId amount now)"
| wp_fireTimer: "wp_reachable s \<Longrightarrow> wp_reachable (fireTimer s h gateway now)"
| wp_stopped: "wp_reachable s \<Longrightarrow> wp_reachable (wp_stop s)"
| wp_restarted: "wp_reachable s \<Longrightarrow> wp_reachable (wp_restart s)"

text \<open>
  The invariant behind the balances of the processor: no balance is negative, and a
  transaction in review has passed the amount check, so that its amount is not negative.
\<close>

definition wp_inv :: "WalletProcessor \<Rightarrow> bool" where
  "wp_inv s \<longleftrightarrow>
     (\<forall>p. 0 \<le> getPlayerBalance s p) \<and>
     (\<forall>r. tx_status (heap s r) = tx_review \<longrightarrow> 0 \<le> tx_amount (heap s r))"

subsection \<open>A concrete run of the processor\<close>

text \<open>
  A new processor; a deposit of 600 for erin is queued at time 1 and approved by the
  deposit ticker (handle 0) at time 2. \<^verbatim>\<open>processWithdrawal\<close> is then called with the amount
  -600 at time 3, which stores the amount 600; the withdrawal ticker (handle 1) puts the
  transaction in review at time 4, and \<^verbatim>\<open>stop()\<close> is called.
\<close>

definition wp_run1 :: WalletProcessor where
  "wp_run1 = snd (processDeposit newWalletProcessor ''erin'' 600 1 ''aaa'')"

definition wp_run2 :: WalletProcessor where
  "wp_run2 = fireTimer wp_run1 0 (\<lambda>k. True) 2"

definition wp_run3 :: WalletProcessor where
  "wp_run3 = snd (processWithdrawal wp_run2 ''erin'' (- 600) 3 ''bbb'')"

definition wp_run4 :: WalletProcessor where
  "wp_run4 = fireTimer wp_run3 1 (\<lambda>k. True) 4"

definition wp_run5 :: WalletProcessor where
  "wp_run5 = wp_stop wp_run4"

text \<open>A new processor on which \<^verbatim>\<open>restart()\<close> and then \<^verbatim>\<open>stop()\<close> are called.\<close>

definition wp_restart_stop :: WalletProcessor where
  "wp_restart_stop = wp_stop (wp_restart newWalletProcessor)"

text \<open>
  A new processor on which \<^verbatim>\<open>processDeposit\<close> is called twice within the same
  millisecond and draws the same random suffix, so that two transactions carry the same
  id; the deposit ticker then processes the queue.
\<close>

definition wp_same_id :: WalletProcessor where
  "wp_same_id =
     fireTimer
       (snd (processDeposit (snd (processDeposit newWalletProcessor ''erin'' 600 1 ''aaa''))
               ''erin'' 600 1 ''aaa''))
       0 (\<lambda>k. True) 2"

text \<open>A new processor with a deposit of 5, below the minimum, in its queue.\<close>

definition wp_small :: WalletProcessor where
  "wp_small = snd (processDeposit newWalletProcessor ''erin'' 5 1 ''ddd'')"

text \<open>The same processor after the deposit, with a withdrawal of 700 queued instead.\<close>

definition wp_overdraw :: WalletProcessor where
  "wp_overdraw = snd (processWithdrawal wp_run2 ''erin'' 700 3 ''ccc'')"

section \<open>GameProcessor (GameProcessor.ts)\<close>

text \<open>
  \<^verbatim>\<open>Player\<close> and \<^verbatim>\<open>Match\<close> come from \<^verbatim>\<open>@/types/game\<close> as well; the records have the fields
  the processor uses. Player and match objects are shared by reference (a player object is
  in the player map and in the \<^verbatim>\<open>players\<close> array of its matches) and updated in place, so
  both live in stores, and maps and arrays hold references. All readings of the clock
  within one call are the same \<open>now\<close>.
\<close>

datatype PlayerStatus = online | inactive

record Player =
  p_id :: string
  p_name :: string
  p_walletBalance :: int
  p_status :: PlayerStatus
  p_lastActivity :: "nat option"

datatype GameMatchStatus = waiting | active | finishing | completed | cancelled

record GameMatch =
  g_id :: string
  g_players :: "nat list"
  g_status :: GameMatchStatus
  g_createdAt :: "nat option"
  g_startTime :: "nat option"
  g_endTime :: "nat option"
  g_timeRemaining :: "int option"
  g_betAmount :: int
  g_winner :: "nat option"

datatype GameTimerTask =
    MainLoop | CleanupLoop | QueueLoop | TransactionLoop | HealthLoop
  | MatchTimer string
  | GameRestart

record GameProcessor =
  matchHeap :: "nat \<Rightarrow> GameMatch"
  nextMatchRef :: nat
  playerHeap :: "nat \<Rightarrow> Player"
  nextPlayerRef :: nat
  gp_matches :: "(string \<times> nat) list"
  gp_players :: "(string \<times> nat) list"
  gp_transactions :: "Transaction list"
  matchQueue :: "string list"
  gp_intervals :: "(string \<times> nat) list"
  gp_isRunning :: bool
  gp_timers :: "(nat \<times> GameTimerTask) list"
  gp_nextHandle :: nat

text \<open>The configuration the constructor fixes.\<close>

definition cfg_matchDuration :: nat where "cfg_matchDuration = 60000"
definition cfg_betAmount :: int where "cfg_betAmount = 10"
definition cfg_winnerPayout :: int where "cfg_winnerPayout = 16"
definition cfg_maxConcurrentMatches :: nat where "cfg_maxConcurrentMatches = 100"

definition gp_setTimer :: "GameProcessor \<Rightarrow> GameTimerTask \<Rightarrow> GameProcessor" where
  "gp_setTimer s task =
     s\<lparr> gp_timers := gp_timers s @ [(gp_nextHandle s, task)],
        gp_nextHandle := gp_nextHandle s + 1 \<rparr>"

definition gp_clearTimer :: "GameProcessor \<Rightarrow> nat \<Rightarrow> GameProcessor" where
  "gp_clearTimer s h = s\<lparr> gp_timers := filter (\<lambda>entry. fst entry \<noteq> h) (gp_timers s) \<rparr>"

definition createTransaction :: "GameProcessor \<Rightarrow> Transaction \<Rightarrow> GameProcessor" where
  "createTransaction s t = s\<lparr> gp_transactions := gp_transactions s @ [t] \<rparr>"

definition cancelMatch :: "GameProcessor \<Rightarrow> string \<Rightarrow> nat \<Rightarrow> GameProcessor" where
  "cancelMatch s matchId now =
     (case map_of (gp_matches s) matchId of
        None \<Rightarrow> s
      | Some m \<Rightarrow>
          s\<lparr> matchHeap := (matchHeap s)(m := (matchHeap s m)\<lparr> g_status := cancelled,
                                                              g_endTime := Some now \<rparr>) \<rparr>)"

definition endMatch :: "GameProcessor \<Rightarrow> string \<Rightarrow> GameProcessor" where
  "endMatch s matchId =
     (case map_of (gp_matches s) matchId of
        None \<Rightarrow> s
      | Some m \<Rightarrow> s\<lparr> matchHeap := (matchHeap s)(m := (matchHeap s m)\<lparr> g_status := finishing \<rparr>) \<rparr>)"

definition cleanupMatch :: "GameProcessor \<Rightarrow> string \<Rightarrow> GameProcessor" where
  "cleanupMatch s matchId =
     (let s1 = s\<lparr> gp_matches := AList.delete matchId (gp_matches s) \<rparr>
      in case map_of (gp_intervals s1) (''match_'' @ matchId) of
           None \<Rightarrow> s1
         | Some timer \<Rightarrow>
             (gp_clearTimer s1 timer)
               \<lparr> gp_intervals := AList.delete (''match_'' @ matchId) (gp_intervals s1) \<rparr>)"

definition setMatchTimer :: "GameProcessor \<Rightarrow> string \<Rightarrow> GameProcessor" where
  "setMatchTimer s matchId =
     (let timer = gp_nextHandle s;
          s1 = gp_setTimer s (MatchTimer matchId)
      in s1\<lparr> gp_intervals := AList.update (''match_'' @ matchId) timer (gp_intervals s1) \<rparr>)"

text \<open>One round of the \<^verbatim>\<open>forEach\<close> of \<^verbatim>\<open>processAutomaticBetDeduction\<close>, for the player \<open>r\<close>.\<close>

definition deductBet :: "GameProcessor \<Rightarrow> nat \<Rightarrow> nat \<Rightarrow> nat \<Rightarrow> GameProcessor" where
  "deductBet s m r now =
     (let player = playerHeap s r
      in if p_walletBalance player \<ge> cfg_betAmount
         then createTransaction
                (s\<lparr> playerHeap := (playerHeap s)(r := player\<lparr> p_walletBalance :=
                                       p_walletBalance player - cfg_betAmount \<rparr>) \<rparr>)
                \<lparr> tx_id = ''bet_'' @ g_id (matchHeap s m) @ ''_'' @ p_id player @ ''_'' @ showNat now,
                  tx_playerId = p_id player, tx_type = tx_bet, tx_amount = - cfg_betAmount,
                  tx_status = tx_completed, tx_timestamp = now,
                  tx_matchId = Some (g_id (matchHeap s m)), tx_completedAt = None,
                  tx_error = None, tx_retryCount = None \<rparr>
         else cancelMatch s (g_id (matchHeap s m)) now)"

definition processAutomaticBetDeduction :: "GameProcessor \<Rightarrow> nat \<Rightarrow> nat \<Rightarrow> GameProcessor" where
  "processAutomaticBetDeduction s m now =
     fold (\<lambda>r st. deductBet st m r now) (g_players (matchHeap s m)) s"

definition processAutomaticPayout :: "GameProcessor \<Rightarrow> nat \<Rightarrow> nat \<Rightarrow> GameProcessor" where
  "processAutomaticPayout s m now =
     (case g_winner (matchHeap s m) of
        None \<Rightarrow> s
      | Some r \<Rightarrow>
          (let player = playerHeap s r
           in createTransaction
                (s\<lparr> playerHeap := (playerHeap s)(r := player\<lparr> p_walletBalance :=
                                       p_walletBalance player + cfg_winnerPayout \<rparr>) \<rparr>)
                \<lparr> tx_id = ''win_'' @ g_id (matchHeap s m) @ ''_'' @ p_id player @ ''_'' @ showNat now,
                  tx_playerId = p_id player, tx_type = tx_win, tx_amount = cfg_winnerPayout,
                  tx_status = tx_completed, tx_timestamp = now,
                  tx_matchId = Some (g_id (matchHeap s m)), tx_completedAt = None,
                  tx_error = None, tx_retryCount = None \<rparr>))"

text \<open>
  One round of the \<^verbatim>\<open>forEach\<close> of \<^verbatim>\<open>processAutomaticRefund\<close>: the player \<open>r\<close> is credited
  the configured bet and a completed refund transaction is appended.
\<close>

definition refundTransaction :: "string \<Rightarrow> string \<Rightarrow> nat \<Rightarrow> Transaction" where
  "refundTransaction matchId playerId now =
     \<lparr> tx_id = ''refund_'' @ matchId @ ''_'' @ playerId @ ''_'' @ showNat now,
       tx_playerId = playerId, tx_type = tx_refund, tx_amount = cfg_betAmount,
       tx_status = tx_completed, tx_timestamp = now, tx_matchId = Some matchId,
       tx_completedAt = None, tx_error = None, tx_retryCount = None \<rparr>"

definition refundPlayer :: "GameProcessor \<Rightarrow> nat \<Rightarrow> nat \<Rightarrow> nat \<Rightarrow> GameProcessor" where
  "refundPlayer s m r now =
     (let player = playerHeap s r
      in createTransaction
           (s\<lparr> playerHeap := (playerHeap s)(r := player\<lparr> p_walletBalance :=
                                  p_walletBalance player + cfg_betAmount \<rparr>) \<rparr>)
           (refundTransaction (g_id (matchHeap s m)) (p_id player) now))"

definition processAutomaticRefund :: "GameProcessor \<Rightarrow> nat \<Rightarrow> nat \<Rightarrow> GameProcessor" where
  "processAutomaticRefund s m now =
     fold (\<lambda>r st. refundPlayer st m r now) (g_players (matchHeap s m)) s"

definition isPlayerInMatch :: "GameProcessor \<Rightarrow> string \<Rightarrow> bool" where
  "isPlayerInMatch s playerId =
     list_ex (\<lambda>entry. list_ex (\<lambda>r. p_id (playerHeap s r) = playerId)
                               (g_players (matchHeap s (snd entry))))
             (gp_matches s)"

definition findAvailableOpponent :: "GameProcessor \<Rightarrow> string \<Rightarrow> nat option" where
  "findAvailableOpponent s excludePlayerId =
     (case filter (\<lambda>r. p_id (playerHeap s r) \<noteq> excludePlayerId \<and>
                        p_status (playerHeap s r) = online \<and>
                        p_walletBalance (playerHeap s r) \<ge> cfg_betAmount \<and>
                        \<not> isPlayerInMatch s (p_id (playerHeap s r)))
                  (map snd (gp_players s)) of
        [] \<Rightarrow> None
      | r # rest \<Rightarrow> Some r)"

definition processWaitingMatch :: "GameProcessor \<Rightarrow> string \<Rightarrow> nat \<Rightarrow> nat \<Rightarrow> GameProcessor" where
  "processWaitingMatch s matchId m now =
     (let s1 =
            (case g_players (matchHeap s m) of
               [first] \<Rightarrow>
                 (case findAvailableOpponent s (p_id (playerHeap s first)) of
                    None \<Rightarrow> s
                  | Some opponent \<Rightarrow>
                      (let sa = s\<lparr> matchHeap := (matchHeap s)(m := (matchHeap s m)
                                     \<lparr> g_players := [first, opponent], g_status := active,
                                       g_startTime := Some now \<rparr>) \<rparr>;
                           sb = processAutomaticBetDeduction sa m now
                       in setMatchTimer sb matchId))
             | _ \<Rightarrow> s)
      in case g_createdAt (matchHeap s1 m) of
           None \<Rightarrow> s1
         | Some c \<Rightarrow> if c \<noteq> 0 \<and> now > c + 120000 then cancelMatch s1 matchId now else s1)"

definition processActiveMatch :: "GameProcessor \<Rightarrow> string \<Rightarrow> nat \<Rightarrow> nat \<Rightarrow> GameProcessor" where
  "processActiveMatch s matchId m now =
     (case g_startTime (matchHeap s m) of
        None \<Rightarrow> s
      | Some start \<Rightarrow>
          if start = 0 then s
          else (let remaining = int cfg_matchDuration - (int now - int start);
                    s1 = s\<lparr> matchHeap := (matchHeap s)(m := (matchHeap s m)
                                 \<lparr> g_timeRemaining := Some (max 0 remaining) \<rparr>) \<rparr>
                in if remaining \<le> 0 then endMatch s1 matchId else s1))"

text \<open>
  \<open>pick\<close> is \<^verbatim>\<open>Math.floor(Math.random() * 2)\<close>, the index of the winner that
  \<^verbatim>\<open>determineMatchWinner\<close> draws.
\<close>

definition determineMatchWinner :: "GameProcessor \<Rightarrow> nat \<Rightarrow> bool \<Rightarrow> nat option" where
  "determineMatchWinner s m pick =
     (case g_players (matchHeap s m) of
        [a, b] \<Rightarrow> Some (if pick then b else a)
      | _ \<Rightarrow> None)"

definition processFinishingMatch :: "GameProcessor \<Rightarrow> string \<Rightarrow> nat \<Rightarrow> bool \<Rightarrow> nat \<Rightarrow> GameProcessor" where
  "processFinishingMatch s matchId m pick now =
     (case determineMatchWinner s m pick of
        None \<Rightarrow> s
      | Some winner \<Rightarrow>
          processAutomaticPayout
            (s\<lparr> matchHeap := (matchHeap s)(m := (matchHeap s m)
                   \<lparr> g_winner := Some winner, g_status := completed, g_endTime := Some now \<rparr>) \<rparr>)
            m now)"

definition processCompletedMatch :: "GameProcessor \<Rightarrow> string \<Rightarrow> nat \<Rightarrow> nat \<Rightarrow> GameProcessor" where
  "processCompletedMatch s matchId m now =
     (case g_endTime (matchHeap s m) of
        None \<Rightarrow> s
      | Some e \<Rightarrow> if e \<noteq> 0 \<and> now > e + 3600000 then cleanupMatch s matchId else s)"

definition processCancelledMatch :: "GameProcessor \<Rightarrow> string \<Rightarrow> nat \<Rightarrow> nat \<Rightarrow> GameProcessor" where
  "processCancelledMatch s matchId m now =
     (let s1 = processAutomaticRefund s m now
      in case g_endTime (matchHeap s1 m) of
           None \<Rightarrow> s1
         | Some e \<Rightarrow> if e \<noteq> 0 \<and> now > e + 1800000 then cleanupMatch s1 matchId else s1)"

definition processMatchState :: "GameProcessor \<Rightarrow> string \<Rightarrow> nat \<Rightarrow> bool \<Rightarrow> nat \<Rightarrow> GameProcessor" where
  "processMatchState s matchId m pick now =
     (case g_status (matchHeap s m) of
        waiting \<Rightarrow> processWaitingMatch s matchId m now
      | active \<Rightarrow> processActiveMatch s matchId m now
      | finishing \<Rightarrow> processFinishingMatch s matchId m pick now
      | completed \<Rightarrow> processCompletedMatch s matchId m now
      | cancelled \<Rightarrow> processCancelledMatch s matchId m now)"

definition processPlayerState :: "GameProcessor \<Rightarrow> nat \<Rightarrow> nat \<Rightarrow> GameProcessor" where
  "processPlayerState s r now =
     (case p_lastActivity (playerHeap s r) of
        None \<Rightarrow> s
      | Some a \<Rightarrow>
          if a \<noteq> 0 \<and> now > a + 300000
          then s\<lparr> playerHeap := (playerHeap s)(r := (playerHeap s r)\<lparr> p_status := inactive \<rparr>) \<rparr>
          else s)"

text \<open>
  The main loop, run every second: every match of the map is processed, then every
  player. A match that an earlier round of the same sweep has deleted is not visited.
  \<open>pick\<close> gives the random draw for each match id.
\<close>

definition processMainLoop :: "GameProcessor \<Rightarrow> (string \<Rightarrow> bool) \<Rightarrow> nat \<Rightarrow> GameProcessor" where
  "processMainLoop s pick now =
     (let s1 = fold (\<lambda>entry st.
                       if map_of (gp_matches st) (fst entry) = Some (snd entry)
                       then processMatchState st (fst entry) (snd entry) (pick (fst entry)) now
                       else st)
                    (gp_matches s) s
      in fold (\<lambda>entry st. processPlayerState st (snd entry) now) (gp_players s1) s1)"

definition createAutomaticMatch ::
  "GameProcessor \<Rightarrow> nat \<Rightarrow> nat \<Rightarrow> nat \<Rightarrow> string \<Rightarrow> GameProcessor" where
  "createAutomaticMatch s player1 player2 now rnd =
     (let match = \<lparr> g_id = ''match_'' @ showNat now @ ''_'' @ rnd, g_players = [player1, player2],
                    g_status = active, g_createdAt = Some now, g_startTime = Some now,
                    g_endTime = None, g_timeRemaining = Some (int cfg_matchDuration),
                    g_betAmount = cfg_betAmount, g_winner = None \<rparr>;
          m = nextMatchRef s;
          s1 = s\<lparr> matchHeap := (matchHeap s)(m := match), nextMatchRef := m + 1,
                  gp_matches := AList.update (g_id match) m (gp_matches s) \<rparr>;
          s2 = processAutomaticBetDeduction s1 m now
      in setMatchTimer s2 (g_id match))"

text \<open>
  The \<^verbatim>\<open>while\<close> loop of \<^verbatim>\<open>processMatchQueue\<close>: two ids leave the queue in each round; the
  \<open>k\<close>-th match created gets the random suffix \<open>rnds k\<close>.
\<close>

fun matchQueueLoop ::
  "GameProcessor \<Rightarrow> string list \<Rightarrow> nat \<Rightarrow> (nat \<Rightarrow> string) \<Rightarrow> nat \<Rightarrow> GameProcessor" where
  "matchQueueLoop s (player1Id # player2Id # rest) now rnds k =
     (if length (gp_matches s) < cfg_maxConcurrentMatches
      then (let s1 = s\<lparr> matchQueue := rest \<rparr>;
                s2 = (case (map_of (gp_players s1) player1Id, map_of (gp_players s1) player2Id) of
                        (Some player1, Some player2) \<Rightarrow>
                          createAutomaticMatch s1 player1 player2 now (rnds k)
                      | _ \<Rightarrow> s1)
            in matchQueueLoop s2 rest now rnds (k + 1))
      else s)"
| "matchQueueLoop s queue now rnds k = s"

definition processMatchQueue :: "GameProcessor \<Rightarrow> nat \<Rightarrow> (nat \<Rightarrow> string) \<Rightarrow> GameProcessor" where
  "processMatchQueue s now rnds = matchQueueLoop s (matchQueue s) now rnds 0"

definition addPlayerToQueue :: "GameProcessor \<Rightarrow> string \<Rightarrow> GameProcessor" where
  "addPlayerToQueue s playerId =
     (if playerId \<in> set (matchQueue s) then s else s\<lparr> matchQueue := matchQueue s @ [playerId] \<rparr>)"

text \<open>
  \<^verbatim>\<open>createPlayer\<close> takes the player's data without an id; of these the name and the wallet
  balance are the fields the processor knows.
\<close>

definition createPlayer ::
  "GameProcessor \<Rightarrow> string \<Rightarrow> int \<Rightarrow> nat \<Rightarrow> string \<Rightarrow> nat \<times> GameProcessor" where
  "createPlayer s name balance now rnd =
     (let player = \<lparr> p_id = ''player_'' @ showNat now @ ''_'' @ rnd, p_name = name,
                     p_walletBalance = balance, p_status = online, p_lastActivity = Some now \<rparr>;
          r = nextPlayerRef s
      in (r, s\<lparr> playerHeap := (playerHeap s)(r := player), nextPlayerRef := r + 1,
                gp_players := AList.update (p_id player) r (gp_players s) \<rparr>))"

definition startAutomatedProcessing :: "GameProcessor \<Rightarrow> GameProcessor" where
  "startAutomatedProcessing s =
     (if gp_isRunning s then s
      else (let h = gp_nextHandle s;
                s1 = s\<lparr> gp_isRunning := True \<rparr>;
                s2 = gp_setTimer s1 MainLoop;
                s3 = gp_setTimer s2 CleanupLoop;
                s4 = gp_setTimer s3 QueueLoop;
                s5 = gp_setTimer s4 TransactionLoop;
                s6 = gp_setTimer s5 HealthLoop
            in s6\<lparr> gp_intervals :=
                      AList.update ''health'' (h + 4)
                        (AList.update ''transactions'' (h + 3)
                          (AList.update ''queue'' (h + 2)
                            (AList.update ''cleanup'' (h + 1)
                              (AList.update ''main'' h (gp_intervals s6))))) \<rparr>))"

definition gp_stop :: "GameProcessor \<Rightarrow> GameProcessor" where
  "gp_stop s =
     (let s1 = s\<lparr> gp_isRunning := False \<rparr>;
          s2 = fold (\<lambda>entry st. gp_clearTimer st (snd entry)) (gp_intervals s1) s1
      in s2\<lparr> gp_intervals := [] \<rparr>)"

definition newGameProcessor :: GameProcessor where
  "newGameProcessor =
     startAutomatedProcessing
       \<lparr> matchHeap = (\<lambda>m. \<lparr> g_id = [], g_players = [], g_status = waiting, g_createdAt = None,
                            g_startTime = None, g_endTime = None, g_timeRemaining = None,
                            g_betAmount = 0, g_winner = None \<rparr>),
         nextMatchRef = 0,
         playerHeap = (\<lambda>r. \<lparr> p_id = [], p_name = [], p_walletBalance = 0, p_status = inactive,
                             p_lastActivity = None \<rparr>),
         nextPlayerRef = 0, gp_matches = [], gp_players = [], gp_transactions = [],
         matchQueue = [], gp_intervals = [], gp_isRunning = False, gp_timers = [],
         gp_nextHandle = 0 \<rparr>"

subsection \<open>A concrete run of the game processor\<close>

text \<open>
  Alice, with a balance of 100, and bob, with a balance of 5, are created at time 1 and
  queued; the queue loop pairs them at time 2. Alice pays the bet, bob cannot, and the
  match is cancelled. The main loop then sweeps at times 3 and 4.
\<close>

definition gp_run1 :: GameProcessor where
  "gp_run1 = snd (createPlayer (snd (createPlayer newGameProcessor ''Alice'' 100 1 ''a'')) ''Bob'' 5 1 ''b'')"

definition gp_run2 :: GameProcessor where
  "gp_run2 = addPlayerToQueue (addPlayerToQueue gp_run1 ''player_1_a'') ''player_1_b''"

definition gp_run3 :: GameProcessor where
  "gp_run3 = processMatchQueue gp_run2 2 (\<lambda>k. ''m'')"

definition gp_run4 :: GameProcessor where
  "gp_run4 = processMainLoop gp_run3 (\<lambda>matchId. False) 3"

definition gp_run5 :: GameProcessor where
  "gp_run5 = processMainLoop gp_run4 (\<lambda>matchId. False) 4"

subsection \<open>Well-formed match maps\<close>

text \<open>
  Every match is stored under its own id, and no key and no match object occurs twice in
  the match map: this is how \<^verbatim>\<open>createAutomaticMatch\<close> fills the map.
\<close>

definition gp_wellformed :: "GameProcessor \<Rightarrow> bool" where
  "gp_wellformed s \<longleftrightarrow>
     distinct (map fst (gp_matches s)) \<and> distinct (map snd (gp_matches s)) \<and>
     (\<forall>entry \<in> set (gp_matches s). g_id (matchHeap s (snd entry)) = fst entry)"

text \<open>
  \<open>ownEntry k m s\<close>: the key \<open>k\<close> is unused or leads to the match object \<open>m\<close>, whose id is
  \<open>k\<close>. \<open>touchesOnly k m s s'\<close>: from \<open>s\<close> to \<open>s'\<close> no other key of the match map and no other
  match object has changed, no match or player has changed its id, and the transaction
  list has only grown at its end.
\<close>

definition ownEntry :: "string \<Rightarrow> nat \<Rightarrow> GameProcessor \<Rightarrow> bool" where
  "ownEntry k m s \<longleftrightarrow>
     (map_of (gp_matches s) k = Some m \<or> map_of (gp_matches s) k = None) \<and>
     g_id (matchHeap s m) = k"

definition touchesOnly :: "string \<Rightarrow> nat \<Rightarrow> GameProcessor \<Rightarrow> GameProcessor \<Rightarrow> bool" where
  "touchesOnly k m s s' \<longleftrightarrow>
     (\<forall>k'. k' \<noteq> k \<longrightarrow> map_of (gp_matches s') k' = map_of (gp_matches s) k') \<and>
     (map_of (gp_matches s') k = map_of (gp_matches s) k \<or> map_of (gp_matches s') k = None) \<and>
     (\<forall>m'. m' \<noteq> m \<longrightarrow> matchHeap s' m' = matchHeap s m') \<and>
     (\<forall>m'. g_id (matchHeap s' m') = g_id (matchHeap s m')) \<and>
     (\<forall>x. p_id (playerHeap s' x) = p_id (playerHeap s x)) \<and>
     (\<exists>new. gp_transactions s' = gp_transactions s @ new)"

section \<open>The stable sort\<close>

lemma mset_insertBy: "mset (insertBy cmp x ys) = add_mset x (mset ys)"
  by (induction ys) auto


lemma mset_jsSort: "mset (jsSort cmp xs) = mset xs"
  by (induction xs) (auto simp add: jsSort_def mset_insertBy)

lemma set_jsSort: "set (jsSort cmp xs) = set xs"
  using mset_jsSort [of cmp xs] by (metis set_mset_mset)

lemma jsSort_Cons: "jsSort cmp (x # xs) = insertBy cmp x (jsSort cmp xs)"
  by (simp add: jsSort_def)

lemma jsSort_Nil: "jsSort cmp [] = []"
  by (simp add: jsSort_def)

section \<open>Properties of SimpleAutomation\<close>

subsection \<open>Wallet reads after each operation\<close>

lemma showNat_digit: "n < 10 \<Longrightarrow> showNat n = [digitChar n]"
  by (simp add: showNat.simps)

lemma getWalletBalance_creditToWallet:
  "getWalletBalance (creditToWallet s u a) v =
     (if v = u then getWalletBalance s u + a else getWalletBalance s v)"
  by (simp add: creditToWallet_def getWalletBalance_def)

lemma getWalletBalance_deductFromWallet:
  "getWalletBalance (snd (deductFromWallet s u a)) v =
     (if v = u \<and> a \<le> getWalletBalance s u then getWalletBalance s u - a
      else getWalletBalance s v)"
  by (simp add: deductFromWallet_def getWalletBalance_def Let_def)

lemma getWalletBalance_matches_update [simp]:
  "getWalletBalance (s\<lparr>matches := m\<rparr>) v = getWalletBalance s v"
  by (simp add: getWalletBalance_def)

lemma getWalletBalance_logTransaction [simp]:
  "getWalletBalance (logTransaction s t) v = getWalletBalance s v"
  by (simp add: getWalletBalance_def logTransaction_def)

lemma transactions_creditToWallet [simp]:
  "transactions (creditToWallet s u a) = transactions s"
  by (simp add: creditToWallet_def)

lemma transactions_deductFromWallet [simp]:
  "transactions (snd (deductFromWallet s u a)) = transactions s"
  by (simp add: deductFromWallet_def Let_def)

lemma matches_creditToWallet [simp]: "matches (creditToWallet s u a) = matches s"
  by (simp add: creditToWallet_def)

lemma matches_deductFromWallet [simp]: "matches (snd (deductFromWallet s u a)) = matches s"
  by (simp add: deductFromWallet_def Let_def)

lemma transactions_createMatch:
  "transactions (snd (createMatch s p1 p2 bet now rnd)) = transactions s"
  by (simp add: createMatch_def Let_def)

lemma getWalletBalance_createMatch:
  "getWalletBalance (snd (createMatch s p1 p2 bet now rnd)) v =
     getWalletBalance (snd (deductFromWallet (snd (deductFromWallet s p1 bet)) p2 bet)) v"
  by (auto simp add: createMatch_def Let_def getWalletBalance_deductFromWallet)

lemma transactions_completeMatch:
  "matches s matchId = Some m \<Longrightarrow>
   transactions (completeMatch s matchId winnerId now) =
     transactions s @
       [\<lparr> wt_id = ''win_'' @ matchId, wt_userId = winnerId, wt_type = wt_win,
          wt_amount = 16, wt_status = wt_completed, wt_timestamp = now \<rparr>,
        \<lparr> wt_id = ''fee_'' @ matchId, wt_userId = ''developer'', wt_type = wt_fee,
          wt_amount = 4, wt_status = wt_completed, wt_timestamp = now \<rparr>]"
  by (simp add: completeMatch_def Let_def logTransaction_def winnerPayout_def serverFee_def)

lemma getWalletBalance_completeMatch:
  "matches s matchId = Some m \<Longrightarrow>
   getWalletBalance (completeMatch s matchId winnerId now) v =
     getWalletBalance (creditToWallet (creditToWallet s winnerId 16) ''developer'' 4) v"
  by (simp add: completeMatch_def Let_def winnerPayout_def serverFee_def
      getWalletBalance_creditToWallet)

lemma completeMatch_unknown: "matches s matchId = None \<Longrightarrow> completeMatch s matchId winnerId now = s"
  by (simp add: completeMatch_def)

lemma matches_completeMatch:
  "matches s matchId = Some m \<Longrightarrow>
   matches (completeMatch s matchId winnerId now) =
     (matches s)(matchId \<mapsto> m\<lparr> m_winner := Some winnerId, m_status := ms_completed,
                                 m_endTime := Some now \<rparr>)"
  by (simp add: completeMatch_def Let_def logTransaction_def)

subsection \<open>The concrete run, evaluated\<close>

lemma demo_matchId_eq: "demo_matchId = ''match_5_k3x9q2m1z''"
  by (simp add: demo_matchId_def createMatch_def Let_def showNat_digit digitChar_def)

lemma demo_funded_balance:
  "getWalletBalance demo_funded v = (if v = ''alice'' \<or> v = ''bob'' then 100 else 0)"
  by (simp add: demo_funded_def getWalletBalance_creditToWallet)
     (simp add: newSimpleAutomation_def getWalletBalance_def)

lemma demo_created_balance:
  "getWalletBalance demo_created v = (if v = ''alice'' \<or> v = ''bob'' then 90 else 0)"
  by (simp add: demo_created_def getWalletBalance_createMatch getWalletBalance_deductFromWallet
      demo_funded_balance)

lemma demo_created_match:
  "matches demo_created demo_matchId =
     Some \<lparr> m_id = demo_matchId, m_player1 = ''alice'', m_player2 = ''bob'', m_betAmount = 10,
            m_winner = None, m_status = ms_pending, m_startTime = 5, m_endTime = None \<rparr>"
  by (simp add: demo_created_def demo_matchId_def createMatch_def Let_def)

lemma demo_created_transactions: "transactions demo_created = []"
  by (simp add: demo_created_def transactions_createMatch)
     (simp add: demo_funded_def newSimpleAutomation_def)

lemma demo_completed_balance:
  "getWalletBalance demo_completed v =
     (if v = ''alice'' then 106 else if v = ''bob'' then 90 else if v = ''developer'' then 4 else 0)"
  by (simp add: demo_completed_def getWalletBalance_completeMatch [OF demo_created_match]
      getWalletBalance_creditToWallet demo_created_balance)

lemma demo_completed_match:
  "matches demo_completed demo_matchId =
     Some \<lparr> m_id = demo_matchId, m_player1 = ''alice'', m_player2 = ''bob'', m_betAmount = 10,
            m_winner = Some ''alice'', m_status = ms_completed, m_startTime = 5,
            m_endTime = Some 6 \<rparr>"
  by (simp add: demo_completed_def matches_completeMatch [OF demo_created_match])

lemma demo_completed_transactions:
  "transactions demo_completed =
     [\<lparr> wt_id = ''win_'' @ demo_matchId, wt_userId = ''alice'', wt_type = wt_win,
        wt_amount = 16, wt_status = wt_completed, wt_timestamp = 6 \<rparr>,
      \<lparr> wt_id = ''fee_'' @ demo_matchId, wt_userId = ''developer'', wt_type = wt_fee,
        wt_amount = 4, wt_status = wt_completed, wt_timestamp = 6 \<rparr>]"
  by (simp add: demo_completed_def transactions_completeMatch [OF demo_created_match]
      demo_created_transactions)

lemma demo_poor_balance:
  "getWalletBalance demo_poor v = (if v = ''carol'' then 5 else if v = ''bob'' then 100 else 0)"
  by (simp add: demo_poor_def getWalletBalance_creditToWallet)
     (simp add: newSimpleAutomation_def getWalletBalance_def)

subsection \<open>Ledger entries of a completed match\<close>

text \<open>
  \<^bold>\<open>C1\<close>, as stated (for every completed match the completed ledger entries of the match
  sum to zero), fails on the concrete run: the match is completed, its completed entries
  are the win entry of 16 and the fee entry of 4; they sum to 20. The whole log holds
  nothing else, so no other reading of "the entries of the match" gives zero from a
  non-empty selection.
\<close>

theorem conservation_counterexample:
  "map_option m_status (matches demo_completed demo_matchId) = Some ms_completed \<and>
   map wt_amount (matchLedger demo_completed demo_matchId) = [16, 4] \<and>
   sum_list (map wt_amount (matchLedger demo_completed demo_matchId)) = 20 \<and>
   sum_list (map wt_amount (matchLedger demo_completed demo_matchId)) \<noteq> 0 \<and>
   map wt_amount (transactions demo_completed) = [16, 4]"
  by (simp add: demo_completed_match matchLedger_def demo_completed_transactions)

text \<open>
  \<^bold>\<open>C1\<close>, amended: when \<^verbatim>\<open>completeMatch\<close> completes a match that has no ledger entry yet,
  the match has status completed and its completed ledger entries are exactly one win
  entry of 16 and one fee entry of 4, so their signed sum is
  \<open>winnerPayout + serverFee = 20\<close> (twice the default bet of 10) and not zero: the bets
  are deducted from the wallets without a ledger entry.
\<close>

theorem completed_match_ledger_sum:
  assumes "matches s matchId = Some m" and "matchLedger s matchId = []"
  shows "map_option m_status (matches (completeMatch s matchId winnerId now) matchId)
           = Some ms_completed \<and>
         map wt_type (matchLedger (completeMatch s matchId winnerId now) matchId)
           = [wt_win, wt_fee] \<and>
         map wt_amount (matchLedger (completeMatch s matchId winnerId now) matchId)
           = [winnerPayout, serverFee] \<and>
         sum_list (map wt_amount (matchLedger (completeMatch s matchId winnerId now) matchId))
           = 20"
proof -
  have led: "matchLedger (completeMatch s matchId winnerId now) matchId =
      matchLedger s matchId @
       [\<lparr> wt_id = ''win_'' @ matchId, wt_userId = winnerId, wt_type = wt_win,
          wt_amount = 16, wt_status = wt_completed, wt_timestamp = now \<rparr>,
        \<lparr> wt_id = ''fee_'' @ matchId, wt_userId = ''developer'', wt_type = wt_fee,
          wt_amount = 4, wt_status = wt_completed, wt_timestamp = now \<rparr>]"
    by (simp add: matchLedger_def transactions_completeMatch [OF assms(1)])
  show ?thesis
    by (simp add: led assms(2) matches_completeMatch [OF assms(1)] winnerPayout_def serverFee_def)
qed

theorem completed_match_ledger_sum_witness:
  "matches demo_created demo_matchId \<noteq> None \<and>
   matchLedger demo_created demo_matchId = [] \<and>
   map_option m_status (matches demo_completed demo_matchId) = Some ms_completed \<and>
   map wt_type (matchLedger demo_completed demo_matchId) = [wt_win, wt_fee] \<and>
   map wt_amount (matchLedger demo_completed demo_matchId) = [16, 4] \<and>
   sum_list (map wt_amount (matchLedger demo_completed demo_matchId)) = 20"
proof -
  have e: "matchLedger demo_created demo_matchId = []"
    by (simp add: matchLedger_def demo_created_transactions)
  show ?thesis
    using completed_match_ledger_sum [OF demo_created_match e, of "''alice''" 6] e
    by (simp add: demo_completed_def demo_created_match winnerPayout_def serverFee_def)
qed

subsection \<open>Settling a match twice\<close>

text \<open>
  \<^bold>\<open>C2\<close>: the code at the failing input. After the first \<^verbatim>\<open>completeMatch\<close> the winner
  holds 106 and the developer wallet 4; a second \<^verbatim>\<open>completeMatch\<close> with the same match id
  pays again: the winner holds 122, the developer wallet 8, and the log has four entries.
\<close>

theorem second_completeMatch_pays_again:
  "getWalletBalance demo_completed ''alice'' = 106 \<and>
   getWalletBalance demo_completed ''developer'' = 4 \<and>
   length (transactions demo_completed) = 2 \<and>
   getWalletBalance (completeMatch demo_completed demo_matchId ''alice'' 7) ''alice'' = 122 \<and>
   getWalletBalance (completeMatch demo_completed demo_matchId ''alice'' 7) ''developer'' = 8 \<and>
   length (transactions (completeMatch demo_completed demo_matchId ''alice'' 7)) = 4"
  by (simp add: getWalletBalance_completeMatch [OF demo_completed_match]
      transactions_completeMatch [OF demo_completed_match]
      getWalletBalance_creditToWallet demo_completed_balance demo_completed_transactions)

subsection \<open>Creating a match without the funds\<close>

text \<open>
  \<^bold>\<open>C3\<close>, as stated (an error is returned, the match set is unchanged and neither
  balance changes), fails: carol holds 5 and the bet is 10, yet \<^verbatim>\<open>createMatch\<close> returns
  the new match id, the match is in the match set afterwards, and bob is debited from
  100 to 90.
\<close>

theorem createMatch_insufficient_counterexample:
  "getWalletBalance demo_poor ''carol'' < 10 \<and>
   fst (createMatch demo_poor ''carol'' ''bob'' 10 5 ''abc'') = ''match_5_abc'' \<and>
   matches demo_poor ''match_5_abc'' = None \<and>
   matches (snd (createMatch demo_poor ''carol'' ''bob'' 10 5 ''abc'')) ''match_5_abc'' \<noteq> None \<and>
   getWalletBalance demo_poor ''bob'' = 100 \<and>
   getWalletBalance (snd (createMatch demo_poor ''carol'' ''bob'' 10 5 ''abc'')) ''bob'' = 90"
proof -
  have "matches demo_poor = Map.empty"
    by (simp add: demo_poor_def newSimpleAutomation_def)
  moreover have "fst (createMatch demo_poor ''carol'' ''bob'' 10 5 ''abc'') = ''match_5_abc''"
    by (simp add: createMatch_def Let_def showNat_digit digitChar_def)
  moreover have
    "matches (snd (createMatch demo_poor ''carol'' ''bob'' 10 5 ''abc'')) ''match_5_abc'' \<noteq> None"
    by (simp add: createMatch_def Let_def showNat_digit digitChar_def)
  ultimately show ?thesis
    by (simp add: getWalletBalance_createMatch getWalletBalance_deductFromWallet
        demo_poor_balance)
qed

text \<open>
  \<^bold>\<open>C3\<close>, amended: for a player whose balance is strictly less than the bet,
  \<^verbatim>\<open>createMatch\<close> leaves that player's balance unchanged and records no transaction;
  it has no error result and returns the new match id.
\<close>

theorem createMatch_insufficient_player:
  assumes "getWalletBalance s p < betAmount" and "p = player1 \<or> p = player2"
  shows "getWalletBalance (snd (createMatch s player1 player2 betAmount now rnd)) p
           = getWalletBalance s p \<and>
         transactions (snd (createMatch s player1 player2 betAmount now rnd)) = transactions s \<and>
         fst (createMatch s player1 player2 betAmount now rnd)
           = ''match_'' @ showNat now @ ''_'' @ rnd"
  using assms
  by (auto simp add: getWalletBalance_createMatch getWalletBalance_deductFromWallet
      transactions_createMatch)
     (simp_all add: createMatch_def Let_def)

theorem createMatch_insufficient_player_witness:
  "getWalletBalance demo_poor ''carol'' < 10 \<and>
   getWalletBalance (snd (createMatch demo_poor ''carol'' ''bob'' 10 5 ''abc'')) ''carol'' = 5 \<and>
   transactions (snd (createMatch demo_poor ''carol'' ''bob'' 10 5 ''abc'')) = [] \<and>
   fst (createMatch demo_poor ''carol'' ''bob'' 10 5 ''abc'') = ''match_5_abc''"
proof -
  have h: "getWalletBalance demo_poor ''carol'' < 10"
    by (simp add: demo_poor_balance)
  have t: "transactions demo_poor = []"
    by (simp add: demo_poor_def newSimpleAutomation_def)
  show ?thesis
    using createMatch_insufficient_player [OF h, of "''carol''" "''bob''" 5 "''abc''"] h t
    by (simp add: demo_poor_balance showNat_digit digitChar_def)
qed

subsection \<open>The winner id is not checked\<close>

text \<open>
  \<^bold>\<open>C9\<close>: for every match id present in the match map and every winner id string, whether
  or not it names one of the two players, \<^verbatim>\<open>completeMatch\<close> credits 16 to the winner id's
  wallet and 4 to the developer wallet (20 in all when the winner id is the developer
  wallet itself).
\<close>

theorem completeMatch_pays_any_winnerId:
  assumes "matches s matchId = Some m"
  shows "getWalletBalance (completeMatch s matchId winnerId now) winnerId
           = getWalletBalance s winnerId + (if winnerId = ''developer'' then 20 else 16) \<and>
         getWalletBalance (completeMatch s matchId winnerId now) ''developer''
           = getWalletBalance s ''developer'' + (if winnerId = ''developer'' then 20 else 4)"
  by (simp add: getWalletBalance_completeMatch [OF assms] getWalletBalance_creditToWallet)

theorem completeMatch_pays_any_winnerId_witness:
  "map_option m_player1 (matches demo_created demo_matchId) = Some ''alice'' \<and>
   map_option m_player2 (matches demo_created demo_matchId) = Some ''bob'' \<and>
   getWalletBalance demo_created ''mallory'' = 0 \<and>
   getWalletBalance (completeMatch demo_created demo_matchId ''mallory'' 6) ''mallory'' = 16 \<and>
   getWalletBalance (completeMatch demo_created demo_matchId ''mallory'' 6) ''developer'' = 4"
  using completeMatch_pays_any_winnerId [OF demo_created_match, of "''mallory''" 6]
  by (simp add: demo_created_match demo_created_balance)

subsection \<open>What the transaction log receives\<close>

lemma sa_reachable_log_types:
  "sa_reachable s \<Longrightarrow> \<forall>t \<in> set (transactions s). wt_type t = wt_win \<or> wt_type t = wt_fee"
proof (induction rule: sa_reachable.induct)
  case sa_new
  show ?case by (simp add: newSimpleAutomation_def)
next
  case (sa_createMatch s player1 player2 betAmount now rnd)
  then show ?case by (simp add: transactions_createMatch)
next
  case (sa_completeMatch s matchId winnerId now)
  show ?case
  proof (cases "matches s matchId")
    case None
    with sa_completeMatch.IH show ?thesis by (simp add: completeMatch_unknown)
  next
    case (Some m)
    with sa_completeMatch.IH show ?thesis by (auto simp add: transactions_completeMatch)
  qed
next
  case (sa_creditToWallet s userId amount)
  then show ?case by simp
next
  case (sa_deductFromWallet s userId amount)
  then show ?case by simp
next
  case (sa_initializeDeveloperWallet s)
  then show ?case by (simp add: initializeDeveloperWallet_def)
qed

lemma set_getTransactionHistory:
  "set (getTransactionHistory s userId) = {t \<in> set (transactions s). wt_userId t = userId}"
  by (auto simp add: getTransactionHistory_def set_jsSort)

lemma sa_reachable_demo_completed: "sa_reachable demo_completed"
  unfolding demo_completed_def demo_created_def demo_funded_def
  by (intro sa_reachable.intros)

lemma demo_dave_balance:
  "getWalletBalance demo_dave v = (if v = ''dave'' then 15 else 0)"
  by (simp add: demo_dave_def getWalletBalance_creditToWallet)
     (simp add: newSimpleAutomation_def getWalletBalance_def)

text \<open>
  \<^bold>\<open>C10\<close>, as stated (\<^verbatim>\<open>createMatch\<close> deducts the bet from both players' balances), fails:
  carol holds 5 and the bet is 10, and after \<^verbatim>\<open>createMatch\<close> carol still holds 5; and dave,
  who holds 15 and is both players of a match with a bet of 10, is debited once and holds
  5, not twice.
\<close>

theorem createMatch_not_always_deducting_counterexample:
  "getWalletBalance demo_poor ''carol'' = 5 \<and>
   getWalletBalance (snd (createMatch demo_poor ''carol'' ''bob'' 10 5 ''abc'')) ''carol'' = 5 \<and>
   getWalletBalance (snd (createMatch demo_poor ''carol'' ''bob'' 10 5 ''abc'')) ''carol''
     \<noteq> getWalletBalance demo_poor ''carol'' - 10 \<and>
   getWalletBalance demo_dave ''dave'' = 15 \<and>
   getWalletBalance (snd (createMatch demo_dave ''dave'' ''dave'' 10 5 ''abc'')) ''dave'' = 5"
  by (simp add: getWalletBalance_createMatch getWalletBalance_deductFromWallet
      demo_poor_balance demo_dave_balance)

text \<open>
  \<^bold>\<open>C10\<close>, amended. \<^verbatim>\<open>createMatch\<close> leaves the transaction log as it is. It changes the
  balances by \<^verbatim>\<open>deductFromWallet\<close> for the first player and then for the second, and
  \<^verbatim>\<open>deductFromWallet\<close> debits the amount when the balance it finds is at least the amount
  and leaves the balance as it is otherwise: of two distinct players each one who can pay
  the bet is debited the bet and the other one keeps his balance; a player matched
  against himself is debited as often as his balance allows; nobody else's balance
  changes. \<^verbatim>\<open>completeMatch\<close> on a known match appends exactly one win entry and one fee
  entry; and in every state the class can reach, no transaction history of any user holds
  a bet entry.
\<close>

theorem createMatch_appends_no_transaction:
  "transactions (snd (createMatch s player1 player2 betAmount now rnd)) = transactions s \<and>
   (\<forall>v. getWalletBalance (snd (createMatch s player1 player2 betAmount now rnd)) v =
        getWalletBalance
          (snd (deductFromWallet (snd (deductFromWallet s player1 betAmount)) player2 betAmount))
          v) \<and>
   (\<forall>u a v. getWalletBalance (snd (deductFromWallet s u a)) v =
        (if v = u \<and> a \<le> getWalletBalance s u then getWalletBalance s u - a
         else getWalletBalance s v)) \<and>
   (player1 \<noteq> player2 \<longrightarrow>
      getWalletBalance (snd (createMatch s player1 player2 betAmount now rnd)) player1
        = (if betAmount \<le> getWalletBalance s player1 then getWalletBalance s player1 - betAmount
           else getWalletBalance s player1) \<and>
      getWalletBalance (snd (createMatch s player1 player2 betAmount now rnd)) player2
        = (if betAmount \<le> getWalletBalance s player2 then getWalletBalance s player2 - betAmount
           else getWalletBalance s player2)) \<and>
   (player1 = player2 \<longrightarrow>
      getWalletBalance (snd (createMatch s player1 player2 betAmount now rnd)) player1
        = (if betAmount \<le> getWalletBalance s player1
           then (if betAmount \<le> getWalletBalance s player1 - betAmount
                 then getWalletBalance s player1 - 2 * betAmount
                 else getWalletBalance s player1 - betAmount)
           else getWalletBalance s player1)) \<and>
   (\<forall>v. v \<noteq> player1 \<and> v \<noteq> player2 \<longrightarrow>
        getWalletBalance (snd (createMatch s player1 player2 betAmount now rnd)) v
          = getWalletBalance s v) \<and>
   (matches s matchId \<noteq> None \<longrightarrow>
      take (length (transactions s)) (transactions (completeMatch s matchId winnerId now'))
        = transactions s \<and>
      map wt_type (drop (length (transactions s))
                        (transactions (completeMatch s matchId winnerId now')))
        = [wt_win, wt_fee]) \<and>
   (sa_reachable s \<longrightarrow>
      (\<forall>userId. \<forall>t \<in> set (getTransactionHistory s userId). wt_type t \<noteq> wt_bet))"
proof -
  let ?s' = "snd (createMatch s player1 player2 betAmount now rnd)"
  have c1: "transactions ?s' = transactions s"
    by (rule transactions_createMatch)
  have c2: "\<forall>v. getWalletBalance ?s' v =
        getWalletBalance
          (snd (deductFromWallet (snd (deductFromWallet s player1 betAmount)) player2 betAmount))
          v"
    by (simp add: getWalletBalance_createMatch)
  have c3: "\<forall>u a v. getWalletBalance (snd (deductFromWallet s u a)) v =
        (if v = u \<and> a \<le> getWalletBalance s u then getWalletBalance s u - a
         else getWalletBalance s v)"
    by (simp add: getWalletBalance_deductFromWallet)
  have c4: "getWalletBalance ?s' player1
        = (if betAmount \<le> getWalletBalance s player1 then getWalletBalance s player1 - betAmount
           else getWalletBalance s player1) \<and>
      getWalletBalance ?s' player2
        = (if betAmount \<le> getWalletBalance s player2 then getWalletBalance s player2 - betAmount
           else getWalletBalance s player2)"
    if "player1 \<noteq> player2"
    using that by (auto simp add: getWalletBalance_createMatch getWalletBalance_deductFromWallet)
  have c5: "getWalletBalance ?s' player1
        = (if betAmount \<le> getWalletBalance s player1
           then (if betAmount \<le> getWalletBalance s player1 - betAmount
                 then getWalletBalance s player1 - 2 * betAmount
                 else getWalletBalance s player1 - betAmount)
           else getWalletBalance s player1)"
    if "player1 = player2"
    using that by (auto simp add: getWalletBalance_createMatch getWalletBalance_deductFromWallet)
  have c6: "\<forall>v. v \<noteq> player1 \<and> v \<noteq> player2 \<longrightarrow> getWalletBalance ?s' v = getWalletBalance s v"
    by (auto simp add: getWalletBalance_createMatch getWalletBalance_deductFromWallet)
  have c7: "take (length (transactions s)) (transactions (completeMatch s matchId winnerId now'))
        = transactions s \<and>
      map wt_type (drop (length (transactions s))
                        (transactions (completeMatch s matchId winnerId now')))
        = [wt_win, wt_fee]"
    if "matches s matchId \<noteq> None"
  proof -
    from that obtain m where m: "matches s matchId = Some m" by auto
    show ?thesis by (simp add: transactions_completeMatch [OF m])
  qed
  have c8: "\<forall>userId. \<forall>t \<in> set (getTransactionHistory s userId). wt_type t \<noteq> wt_bet"
    if r: "sa_reachable s"
    using sa_reachable_log_types [OF r] by (auto simp add: set_getTransactionHistory)
  show ?thesis
    using c1 c2 c3 c4 c5 c6 c7 c8 by blast
qed

theorem createMatch_appends_no_transaction_witness:
  "transactions demo_created = transactions demo_funded \<and>
   getWalletBalance demo_funded ''alice'' = 100 \<and> getWalletBalance demo_funded ''bob'' = 100 \<and>
   getWalletBalance demo_created ''alice'' = 90 \<and> getWalletBalance demo_created ''bob'' = 90 \<and>
   getWalletBalance demo_created ''erin'' = getWalletBalance demo_funded ''erin'' \<and>
   getWalletBalance (snd (createMatch demo_poor ''carol'' ''bob'' 10 5 ''abc'')) ''carol'' = 5 \<and>
   getWalletBalance (snd (createMatch demo_poor ''carol'' ''bob'' 10 5 ''abc'')) ''bob'' = 90 \<and>
   getWalletBalance (snd (createMatch demo_dave ''dave'' ''dave'' 10 5 ''abc'')) ''dave'' = 5 \<and>
   matches demo_created demo_matchId \<noteq> None \<and>
   map wt_type (drop (length (transactions demo_created)) (transactions demo_completed))
     = [wt_win, wt_fee] \<and>
   sa_reachable demo_completed \<and>
   list_all (\<lambda>t. wt_type t \<noteq> wt_bet) (getTransactionHistory demo_completed ''alice'') \<and>
   getTransactionHistory demo_completed ''alice'' \<noteq> []"
proof -
  have ne: "''alice'' \<noteq> ''bob''" "''carol'' \<noteq> ''bob''" "''erin'' \<noteq> ''alice'' \<and> ''erin'' \<noteq> ''bob''"
    by simp_all
  have a: "transactions demo_created = transactions demo_funded \<and>
      getWalletBalance demo_created ''alice'' = 90 \<and> getWalletBalance demo_created ''bob'' = 90 \<and>
      getWalletBalance demo_created ''erin'' = getWalletBalance demo_funded ''erin''"
    using createMatch_appends_no_transaction
            [where s = demo_funded and ?player1.0 = "''alice''" and ?player2.0 = "''bob''"
               and betAmount = 10 and now = 5 and rnd = "''k3x9q2m1z''"
               and matchId = demo_matchId and winnerId = "''alice''" and now' = 6] ne
    unfolding demo_created_def
    by (simp add: demo_funded_balance getWalletBalance_deductFromWallet)
  have p: "getWalletBalance (snd (createMatch demo_poor ''carol'' ''bob'' 10 5 ''abc'')) ''carol'' = 5 \<and>
      getWalletBalance (snd (createMatch demo_poor ''carol'' ''bob'' 10 5 ''abc'')) ''bob'' = 90"
    using createMatch_appends_no_transaction
            [where s = demo_poor and ?player1.0 = "''carol''" and ?player2.0 = "''bob''"
               and betAmount = 10 and now = 5 and rnd = "''abc''"
               and matchId = demo_matchId and winnerId = "''alice''" and now' = 6] ne
    by (simp add: demo_poor_balance getWalletBalance_deductFromWallet)
  have e: "getWalletBalance (snd (createMatch demo_dave ''dave'' ''dave'' 10 5 ''abc'')) ''dave'' = 5"
    using createMatch_appends_no_transaction
            [where s = demo_dave and ?player1.0 = "''dave''" and ?player2.0 = "''dave''"
               and betAmount = 10 and now = 5 and rnd = "''abc''"
               and matchId = demo_matchId and winnerId = "''alice''" and now' = 6]
    by (simp add: demo_dave_balance getWalletBalance_deductFromWallet)
  have b: "map wt_type (drop (length (transactions demo_created)) (transactions demo_completed))
      = [wt_win, wt_fee]"
    using createMatch_appends_no_transaction
            [where s = demo_created and ?player1.0 = "''alice''" and ?player2.0 = "''bob''"
               and betAmount = 10 and now = 5 and rnd = "''abc''"
               and matchId = demo_matchId and winnerId = "''alice''" and now' = 6]
    by (simp add: demo_completed_def demo_created_match)
  have c: "list_all (\<lambda>t. wt_type t \<noteq> wt_bet) (getTransactionHistory demo_completed ''alice'')"
    using createMatch_appends_no_transaction
            [where s = demo_completed and ?player1.0 = "''alice''" and ?player2.0 = "''bob''"
               and betAmount = 10 and now = 5 and rnd = "''abc''"
               and matchId = demo_matchId and winnerId = "''alice''" and now' = 6]
          sa_reachable_demo_completed
    by (simp add: list_all_iff)
  have d: "getTransactionHistory demo_completed ''alice'' \<noteq> []"
    by (simp add: getTransactionHistory_def demo_completed_transactions jsSort_Cons jsSort_Nil)
  show ?thesis
    using a p e b c d sa_reachable_demo_completed
    by (simp add: demo_funded_balance demo_created_match)
qed

section \<open>Properties of EventProcessor\<close>


















section \<open>Properties of WalletProcessor\<close>

subsection \<open>The balance invariant\<close>

lemma fold_preserves:
  assumes "\<And>x st. P st \<Longrightarrow> P (f x st)" and "P s"
  shows "P (fold f xs s)"
  using assms(2) by (induction xs arbitrary: s) (simp_all add: assms(1))

lemma wp_inv_same:
  "playerBalances s' = playerBalances s \<Longrightarrow> heap s' = heap s \<Longrightarrow> wp_inv s' = wp_inv s"
  by (simp add: wp_inv_def getPlayerBalance_def)

lemma wp_inv_setTimer [simp]: "wp_inv (setTimer s task) = wp_inv s"
  by (rule wp_inv_same) (simp_all add: setTimer_def)

lemma wp_inv_clearTimer [simp]: "wp_inv (clearTimer s h) = wp_inv s"
  by (rule wp_inv_same) (simp_all add: clearTimer_def)

lemma wp_inv_failTransaction: "wp_inv s \<Longrightarrow> wp_inv (failTransaction s t reason now)"
  by (simp add: wp_inv_def failTransaction_def getPlayerBalance_def Let_def)

lemma wp_inv_approveDeposit:
  "wp_inv s \<Longrightarrow> 0 \<le> tx_amount (heap s d) \<Longrightarrow> wp_inv (approveDeposit s d now)"
  by (simp add: wp_inv_def approveDeposit_def getPlayerBalance_def Let_def)

lemma wp_inv_approveWithdrawal:
  "wp_inv s \<Longrightarrow> 0 \<le> tx_amount (heap s w) \<Longrightarrow> wp_inv (approveWithdrawal s w now)"
  by (simp add: approveWithdrawal_def Let_def)
     (simp add: wp_inv_def getPlayerBalance_def)

lemma wp_inv_queueForManualReview:
  "wp_inv s \<Longrightarrow> 0 \<le> tx_amount (heap s w) \<Longrightarrow> wp_inv (queueForManualReview s w)"
  by (simp add: queueForManualReview_def Let_def)
     (simp add: wp_inv_def getPlayerBalance_def)

lemma wp_inv_processDepositTransaction:
  "wp_inv s \<Longrightarrow> wp_inv (processDepositTransaction s d gatewayOk now)"
  by (simp add: processDepositTransaction_def Let_def wp_inv_failTransaction
      wp_inv_approveDeposit minDeposit_def)

lemma wp_inv_processDepositList:
  "wp_inv s \<Longrightarrow> wp_inv (processDepositList s ds gateway k now)"
  by (induction ds arbitrary: s k) (simp_all add: wp_inv_processDepositTransaction)

lemma wp_inv_processAutomaticDeposits:
  assumes "wp_inv s" shows "wp_inv (processAutomaticDeposits s gateway now)"
proof -
  have "wp_inv (s\<lparr> pendingDeposits := [] \<rparr>)"
    using assms wp_inv_same [of "s\<lparr> pendingDeposits := [] \<rparr>" s] by simp
  then show ?thesis
    using assms by (simp add: processAutomaticDeposits_def wp_inv_processDepositList)
qed

lemma wp_inv_processWithdrawalTransaction:
  "wp_inv s \<Longrightarrow> wp_inv (processWithdrawalTransaction s w now)"
  by (simp add: processWithdrawalTransaction_def Let_def wp_inv_failTransaction
      wp_inv_approveWithdrawal wp_inv_queueForManualReview minWithdrawal_def)

lemma wp_inv_processAutomaticWithdrawals:
  assumes "wp_inv s" shows "wp_inv (processAutomaticWithdrawals s now)"
proof -
  have "wp_inv (s\<lparr> pendingWithdrawals := [] \<rparr>)"
    using assms wp_inv_same [of "s\<lparr> pendingWithdrawals := [] \<rparr>" s] by simp
  then have "wp_inv (fold (\<lambda>w st. processWithdrawalTransaction st w now) (pendingWithdrawals s)
             (s\<lparr> pendingWithdrawals := [] \<rparr>))"
    by (rule fold_preserves [rotated]) (rule wp_inv_processWithdrawalTransaction)
  then show ?thesis
    using assms by (simp add: processAutomaticWithdrawals_def)
qed

lemma wp_inv_retryTransaction: "wp_inv s \<Longrightarrow> wp_inv (retryTransaction s t now)"
proof -
  assume inv: "wp_inv s"
  let ?count = "(case tx_retryCount (heap s t) of None \<Rightarrow> 0 | Some c \<Rightarrow> c) + 1"
  let ?s1 = "s\<lparr> heap := (heap s)(t := (heap s t)\<lparr> tx_status := tx_pending,
                 tx_retryCount := Some ?count \<rparr>) \<rparr>"
  have s1: "wp_inv ?s1"
    using inv by (simp add: wp_inv_def getPlayerBalance_def)
  have a: "wp_inv (?s1\<lparr> pendingDeposits := pendingDeposits ?s1 @ [t] \<rparr>)"
    using s1 wp_inv_same [of "?s1\<lparr> pendingDeposits := pendingDeposits ?s1 @ [t] \<rparr>" ?s1] by simp
  have b: "wp_inv (?s1\<lparr> pendingWithdrawals := pendingWithdrawals ?s1 @ [t] \<rparr>)"
    using s1 wp_inv_same [of "?s1\<lparr> pendingWithdrawals := pendingWithdrawals ?s1 @ [t] \<rparr>" ?s1]
    by simp
  show ?thesis
    unfolding retryTransaction_def Let_def
    using s1 a b wp_inv_failTransaction [OF s1] by simp
qed

lemma wp_inv_handleStuckTransaction: "wp_inv s \<Longrightarrow> wp_inv (handleStuckTransaction s t now)"
  by (simp add: handleStuckTransaction_def wp_inv_retryTransaction wp_inv_failTransaction)

lemma wp_inv_validateTransactions: "wp_inv s \<Longrightarrow> wp_inv (validateTransactions s now)"
  unfolding validateTransactions_def
  by (rule fold_preserves) (simp_all add: wp_inv_handleStuckTransaction)

lemma wp_inv_collectSystemFees:
  assumes "wp_inv s" shows "wp_inv (collectSystemFees s)"
proof -
  let ?step = "\<lambda>r st. st\<lparr> developerBalance := developerBalance st + tx_amount (heap st r),
                   heap := (heap st)(r := (heap st r)\<lparr> tx_status := tx_completed \<rparr>) \<rparr>"
  have step: "wp_inv (?step r st)" if "wp_inv st" for r st
    using that by (simp add: wp_inv_def getPlayerBalance_def)
  have f: "wp_inv (fold ?step rs s)" for rs
    by (rule fold_preserves) (simp_all add: step assms)
  have t: "wp_inv (st\<lparr> totalFees := x \<rparr>) = wp_inv st" for st x
    by (rule wp_inv_same) simp_all
  show ?thesis
    unfolding collectSystemFees_def Let_def using f by (simp add: t)
qed

lemma wp_inv_cleanupWalletData: "wp_inv (cleanupWalletData s now) = wp_inv s"
  by (rule wp_inv_same) (simp_all add: cleanupWalletData_def)

lemma wp_inv_processDeposit:
  "wp_inv s \<Longrightarrow> wp_inv (snd (processDeposit s playerId amount now rnd))"
  by (simp add: processDeposit_def Let_def wp_inv_def getPlayerBalance_def)

lemma wp_inv_processWithdrawal:
  "wp_inv s \<Longrightarrow> wp_inv (snd (processWithdrawal s playerId amount now rnd))"
  by (simp add: processWithdrawal_def Let_def wp_inv_def getPlayerBalance_def)

lemma wp_inv_addServerFee: "wp_inv s \<Longrightarrow> wp_inv (addServerFee s matchId amount now)"
  by (simp add: addServerFee_def Let_def wp_inv_def getPlayerBalance_def)

lemma wp_inv_startAutomatedWalletProcessing:
  "wp_inv (startAutomatedWalletProcessing s) = wp_inv s"
  by (rule wp_inv_same) (simp_all add: startAutomatedWalletProcessing_def Let_def setTimer_def)

lemma wp_inv_stop: "wp_inv (wp_stop s) = wp_inv s"
proof -
  have h: "heap (fold (\<lambda>entry st. clearTimer st (snd entry)) xs st) = heap st" for xs st
    by (induction xs arbitrary: st) (simp_all add: clearTimer_def)
  have b: "playerBalances (fold (\<lambda>entry st. clearTimer st (snd entry)) xs st) = playerBalances st"
    for xs st
    by (induction xs arbitrary: st) (simp_all add: clearTimer_def)
  show ?thesis
    by (rule wp_inv_same) (simp_all add: wp_stop_def Let_def h b)
qed

lemma wp_inv_restart: "wp_inv (wp_restart s) = wp_inv s"
  by (simp add: wp_restart_def wp_inv_stop)

lemma wp_inv_runTask: "wp_inv s \<Longrightarrow> wp_inv (runTask s task gateway now)"
  by (cases task)
     (simp_all add: runTask_def wp_inv_processAutomaticDeposits
        wp_inv_processAutomaticWithdrawals synchronizeBalances_def wp_inv_validateTransactions
        wp_inv_collectSystemFees wp_inv_cleanupWalletData wp_inv_approveWithdrawal
        wp_inv_startAutomatedWalletProcessing wp_inv_def [of s])

lemma wp_inv_fireTimer: "wp_inv s \<Longrightarrow> wp_inv (fireTimer s h gateway now)"
  by (simp add: fireTimer_def wp_inv_runTask split: option.splits)

lemma wp_inv_new: "wp_inv newWalletProcessor"
  unfolding newWalletProcessor_def wp_inv_startAutomatedWalletProcessing
  by (simp add: wp_inv_def getPlayerBalance_def)

lemma wp_reachable_inv: "wp_reachable s \<Longrightarrow> wp_inv s"
  by (induction rule: wp_reachable.induct)
     (simp_all add: wp_inv_new wp_inv_processDeposit wp_inv_processWithdrawal
        wp_inv_addServerFee wp_inv_fireTimer wp_inv_stop wp_inv_restart)

subsection \<open>The concrete run, evaluated\<close>

lemma newWalletProcessor_fields:
  "wp_timers newWalletProcessor =
     [(0, DepositTicker), (1, WithdrawalTicker), (2, BalanceTicker), (3, ValidationTicker),
      (4, FeeTicker), (5, CleanupTicker)]"
  "wp_intervals newWalletProcessor =
     [(''deposits'', 0), (''withdrawals'', 1), (''balance'', 2), (''validation'', 3),
      (''fees'', 4), (''cleanup'', 5)]"
  "nextHandle newWalletProcessor = 6"
  "nextRef newWalletProcessor = 0"
  "pendingDeposits newWalletProcessor = []"
  "pendingWithdrawals newWalletProcessor = []"
  "playerBalances newWalletProcessor = Map.empty"
  "wp_isRunning newWalletProcessor = True"
  "wp_transactions newWalletProcessor = []"
  by (simp_all add: newWalletProcessor_def startAutomatedWalletProcessing_def Let_def
      setTimer_def)

lemma wp_run1_fields:
  "wp_timers wp_run1 = wp_timers newWalletProcessor"
  "wp_intervals wp_run1 = wp_intervals newWalletProcessor"
  "nextHandle wp_run1 = 6"
  "nextRef wp_run1 = 1"
  "pendingDeposits wp_run1 = [0]"
  "pendingWithdrawals wp_run1 = []"
  "playerBalances wp_run1 = Map.empty"
  "wp_isRunning wp_run1 = True"
  "wp_transactions wp_run1 = []"
  "heap wp_run1 0 =
     \<lparr> tx_id = ''dep_1_aaa'', tx_playerId = ''erin'', tx_type = tx_deposit, tx_amount = 600,
       tx_status = tx_pending, tx_timestamp = 1, tx_matchId = None, tx_completedAt = None,
       tx_error = None, tx_retryCount = None \<rparr>"
  by (simp_all add: wp_run1_def processDeposit_def Let_def newWalletProcessor_fields
      showNat_digit digitChar_def)

lemma wp_run2_eq: "wp_run2 = approveDeposit (wp_run1\<lparr> pendingDeposits := [] \<rparr>) 0 2"
  by (simp add: wp_run2_def fireTimer_def wp_run1_fields newWalletProcessor_fields isTicker_def
      runTask_def processAutomaticDeposits_def processDepositTransaction_def Let_def
      minDeposit_def maxDeposit_def)

lemma wp_run2_fields:
  "wp_timers wp_run2 = wp_timers newWalletProcessor"
  "wp_intervals wp_run2 = wp_intervals newWalletProcessor"
  "nextHandle wp_run2 = 6"
  "nextRef wp_run2 = 1"
  "pendingDeposits wp_run2 = []"
  "pendingWithdrawals wp_run2 = []"
  "playerBalances wp_run2 = [''erin'' \<mapsto> 600]"
  "wp_isRunning wp_run2 = True"
  "wp_transactions wp_run2 = [(''dep_1_aaa'', 0)]"
  "tx_status (heap wp_run2 0) = tx_completed"
  by (simp_all add: wp_run2_eq approveDeposit_def Let_def wp_run1_fields getPlayerBalance_def)

lemma wp_run3_fields:
  "wp_timers wp_run3 = wp_timers newWalletProcessor"
  "wp_intervals wp_run3 = wp_intervals newWalletProcessor"
  "nextHandle wp_run3 = 6"
  "nextRef wp_run3 = 2"
  "pendingDeposits wp_run3 = []"
  "pendingWithdrawals wp_run3 = [1]"
  "playerBalances wp_run3 = [''erin'' \<mapsto> 600]"
  "wp_isRunning wp_run3 = True"
  "wp_transactions wp_run3 = [(''dep_1_aaa'', 0)]"
  "heap wp_run3 (Suc 0) =
     \<lparr> tx_id = ''wd_3_bbb'', tx_playerId = ''erin'', tx_type = tx_withdrawal, tx_amount = 600,
       tx_status = tx_pending, tx_timestamp = 3, tx_matchId = None, tx_completedAt = None,
       tx_error = None, tx_retryCount = None \<rparr>"
  by (simp_all add: wp_run3_def processWithdrawal_def Let_def wp_run2_fields
      showNat_digit digitChar_def)

lemma wp_run4_eq: "wp_run4 = queueForManualReview (wp_run3\<lparr> pendingWithdrawals := [] \<rparr>) 1"
  by (simp add: wp_run4_def fireTimer_def wp_run3_fields newWalletProcessor_fields isTicker_def
      runTask_def processAutomaticWithdrawals_def processWithdrawalTransaction_def Let_def
      minWithdrawal_def maxWithdrawal_def autoApprovalLimit_def getPlayerBalance_def)

lemma wp_run4_fields:
  "wp_timers wp_run4 = wp_timers newWalletProcessor @ [(6, ReviewApproval 1)]"
  "wp_intervals wp_run4 = wp_intervals newWalletProcessor"
  "nextHandle wp_run4 = 7"
  "playerBalances wp_run4 = [''erin'' \<mapsto> 600]"
  "wp_isRunning wp_run4 = True"
  "wp_transactions wp_run4 = [(''dep_1_aaa'', 0), (''wd_3_bbb'', 1)]"
  "heap wp_run4 (Suc 0) =
     \<lparr> tx_id = ''wd_3_bbb'', tx_playerId = ''erin'', tx_type = tx_withdrawal, tx_amount = 600,
       tx_status = tx_review, tx_timestamp = 3, tx_matchId = None, tx_completedAt = None,
       tx_error = None, tx_retryCount = None \<rparr>"
  by (simp_all add: wp_run4_eq queueForManualReview_def Let_def setTimer_def wp_run3_fields)

lemma wp_run5_fields:
  "wp_timers wp_run5 = [(6, ReviewApproval 1)]"
  "wp_intervals wp_run5 = []"
  "nextHandle wp_run5 = 7"
  "playerBalances wp_run5 = [''erin'' \<mapsto> 600]"
  "wp_isRunning wp_run5 = False"
  "heap wp_run5 = heap wp_run4"
  by (simp_all add: wp_run5_def wp_stop_def Let_def clearTimer_def wp_run4_fields
      newWalletProcessor_fields)

lemma wp_reachable_run4: "wp_reachable wp_run4"
  unfolding wp_run4_def wp_run3_def wp_run2_def wp_run1_def
  by (intro wp_reachable.intros)

lemma wp_reachable_run5: "wp_reachable wp_run5"
  unfolding wp_run5_def by (intro wp_reachable.intros wp_reachable_run4)

subsection \<open>Timers that outlive \<^verbatim>\<open>stop()\<close>\<close>

text \<open>
  \<^bold>\<open>C7\<close>: the code at the failing input. After \<^verbatim>\<open>stop()\<close> the processor is not running
  and its interval map is empty, but the one-shot timer that \<^verbatim>\<open>queueForManualReview\<close>
  created (handle 6) is still live. When it fires, it approves the withdrawal in review:
  erin's balance goes from 600 to 1200 and the transaction from review to completed.
  In the same way the one-shot timer of \<^verbatim>\<open>restart()\<close> is still live after a \<^verbatim>\<open>stop()\<close> that
  follows the \<^verbatim>\<open>restart()\<close>; when it fires, the processor runs again with six new tickers.
\<close>

theorem review_timer_survives_stop:
  "wp_reachable wp_run5 \<and> wp_isRunning wp_run5 = False \<and> wp_intervals wp_run5 = [] \<and>
   wp_timers wp_run5 = [(6, ReviewApproval 1)] \<and>
   getPlayerBalance wp_run5 ''erin'' = 600 \<and>
   tx_status (heap wp_run5 1) = tx_review \<and>
   getPlayerBalance (fireTimer wp_run5 6 (\<lambda>k. True) 5) ''erin'' = 1200 \<and>
   tx_status (heap (fireTimer wp_run5 6 (\<lambda>k. True) 5) 1) = tx_completed \<and>
   wp_isRunning wp_restart_stop = False \<and> wp_intervals wp_restart_stop = [] \<and>
   wp_timers wp_restart_stop = [(6, RestartStart)] \<and>
   wp_isRunning (fireTimer wp_restart_stop 6 (\<lambda>k. True) 5) = True \<and>
   map snd (wp_timers (fireTimer wp_restart_stop 6 (\<lambda>k. True) 5)) =
     [DepositTicker, WithdrawalTicker, BalanceTicker, ValidationTicker, FeeTicker, CleanupTicker]"
proof -
  have r: "wp_isRunning wp_restart_stop = False \<and> wp_intervals wp_restart_stop = [] \<and>
      wp_timers wp_restart_stop = [(6, RestartStart)]"
    by (simp add: wp_restart_stop_def wp_restart_def wp_stop_def Let_def clearTimer_def
        setTimer_def newWalletProcessor_fields)
  have r': "wp_isRunning (fireTimer wp_restart_stop 6 (\<lambda>k. True) 5) = True \<and>
      map snd (wp_timers (fireTimer wp_restart_stop 6 (\<lambda>k. True) 5)) =
        [DepositTicker, WithdrawalTicker, BalanceTicker, ValidationTicker, FeeTicker,
         CleanupTicker]"
    by (simp add: fireTimer_def r isTicker_def runTask_def clearTimer_def
        startAutomatedWalletProcessing_def Let_def setTimer_def)
  have f: "fireTimer wp_run5 6 (\<lambda>k. True) 5 = approveWithdrawal (clearTimer wp_run5 6) (Suc 0) 5"
    by (simp add: fireTimer_def wp_run5_fields isTicker_def runTask_def clearTimer_def
        wp_run4_fields)
  have b: "getPlayerBalance (approveWithdrawal (clearTimer wp_run5 6) (Suc 0) 5) ''erin'' = 1200"
    by (simp add: approveWithdrawal_def Let_def setTimer_def clearTimer_def getPlayerBalance_def
        wp_run5_fields wp_run4_fields)
  have c: "tx_status (heap (approveWithdrawal (clearTimer wp_run5 6) (Suc 0) 5) (Suc 0))
      = tx_completed"
    by (simp add: approveWithdrawal_def Let_def setTimer_def)
  show ?thesis
    using wp_reachable_run5 b c r r'
    by (simp add: f wp_run5_fields wp_run4_fields getPlayerBalance_def)
qed

subsection \<open>Processing the same deposit twice\<close>

lemma processDepositTransaction_valid:
  "minDeposit \<le> tx_amount (heap s d) \<Longrightarrow> tx_amount (heap s d) \<le> maxDeposit \<Longrightarrow>
   processDepositTransaction s d True now = approveDeposit s d now"
  by (simp add: processDepositTransaction_def Let_def)

lemma approveDeposit_effect:
  "heap (approveDeposit s d now) d =
     (heap s d)\<lparr> tx_status := tx_completed, tx_completedAt := Some now \<rparr>"
  "getPlayerBalance (approveDeposit s d now) p =
     (if p = tx_playerId (heap s d) then getPlayerBalance s p + tx_amount (heap s d)
      else getPlayerBalance s p)"
  "map_of (wp_transactions (approveDeposit s d now)) (tx_id (heap s d)) = Some d"
  by (simp_all add: approveDeposit_def Let_def getPlayerBalance_def update_Some_unfold)

text \<open>
  \<^bold>\<open>C5\<close>, as stated (processing a resolved transaction again is a no-op), fails: the
  deposit of 600 is completed by the first processing, which leaves erin with 600, and
  processing the same transaction once more leaves erin with 1200. The same holds for two
  transactions that the public method has given the same id: the deposit ticker credits
  both, erin holds 1200, and the transaction map has the one entry of that id.
\<close>

theorem idempotent_posting_counterexample:
  "tx_status (heap (processDepositTransaction wp_run1 0 True 2) 0) = tx_completed \<and>
   getPlayerBalance (processDepositTransaction wp_run1 0 True 2) ''erin'' = 600 \<and>
   getPlayerBalance
     (processDepositTransaction (processDepositTransaction wp_run1 0 True 2) 0 True 3) ''erin''
     = 1200 \<and>
   wp_reachable wp_same_id \<and> tx_id (heap wp_same_id 0) = tx_id (heap wp_same_id 1) \<and>
   wp_transactions wp_same_id = [(''dep_1_aaa'', 1)] \<and>
   getPlayerBalance wp_same_id ''erin'' = 1200"
proof -
  have q: "wp_reachable wp_same_id"
    unfolding wp_same_id_def by (intro wp_reachable.intros)
  have d: "wp_same_id =
      approveDeposit
        (approveDeposit
           ((snd (processDeposit (snd (processDeposit newWalletProcessor ''erin'' 600 1 ''aaa''))
                    ''erin'' 600 1 ''aaa''))\<lparr> pendingDeposits := [] \<rparr>) 0 2) (Suc 0) 2"
    by (simp add: wp_same_id_def fireTimer_def processDeposit_def Let_def
        newWalletProcessor_fields isTicker_def runTask_def processAutomaticDeposits_def
        processDepositTransaction_def minDeposit_def maxDeposit_def approveDeposit_def)
  have e: "tx_id (heap wp_same_id 0) = tx_id (heap wp_same_id 1) \<and>
      wp_transactions wp_same_id = [(''dep_1_aaa'', 1)] \<and>
      getPlayerBalance wp_same_id ''erin'' = 1200"
    unfolding d
    by (simp add: approveDeposit_def processDeposit_def Let_def newWalletProcessor_fields
        getPlayerBalance_def showNat_digit digitChar_def)
  have v: "minDeposit \<le> tx_amount (heap wp_run1 0)" "tx_amount (heap wp_run1 0) \<le> maxDeposit"
    by (simp_all add: wp_run1_fields minDeposit_def maxDeposit_def)
  have once: "processDepositTransaction wp_run1 0 True 2 = approveDeposit wp_run1 0 2"
    by (rule processDepositTransaction_valid [OF v])
  have v2: "minDeposit \<le> tx_amount (heap (approveDeposit wp_run1 0 2) 0)"
    "tx_amount (heap (approveDeposit wp_run1 0 2) 0) \<le> maxDeposit"
    using v by (simp_all add: approveDeposit_effect)
  have "tx_status (heap (processDepositTransaction wp_run1 0 True 2) 0) = tx_completed \<and>
   getPlayerBalance (processDepositTransaction wp_run1 0 True 2) ''erin'' = 600 \<and>
   getPlayerBalance
     (processDepositTransaction (processDepositTransaction wp_run1 0 True 2) 0 True 3) ''erin''
     = 1200"
    unfolding once processDepositTransaction_valid [OF v2]
    by (simp add: approveDeposit_effect wp_run1_fields)
       (simp add: getPlayerBalance_def wp_run1_fields)
  with q e show ?thesis by simp
qed

text \<open>
  \<^bold>\<open>C5\<close>, amended: posting is not deduplicated by id, \<^verbatim>\<open>processDepositTransaction\<close> does
  not read the status of the transaction. Processing a deposit with a valid amount twice,
  the gateway succeeding both times, credits the amount twice; the transaction is
  completed after the first processing already, it is stored under its id after both,
  and the second processing only renews its completion time. A deposit with an amount
  outside the limits is failed each time it is processed and changes no balance.
\<close>

theorem processing_twice_credits_twice:
  "(minDeposit \<le> tx_amount (heap s d) \<and> tx_amount (heap s d) \<le> maxDeposit \<longrightarrow>
      tx_status (heap (processDepositTransaction s d True now) d) = tx_completed \<and>
      getPlayerBalance (processDepositTransaction s d True now) (tx_playerId (heap s d))
        = getPlayerBalance s (tx_playerId (heap s d)) + tx_amount (heap s d) \<and>
      getPlayerBalance
        (processDepositTransaction (processDepositTransaction s d True now) d True now')
        (tx_playerId (heap s d))
        = getPlayerBalance s (tx_playerId (heap s d)) + 2 * tx_amount (heap s d) \<and>
      heap (processDepositTransaction (processDepositTransaction s d True now) d True now') d
        = (heap (processDepositTransaction s d True now) d)\<lparr> tx_completedAt := Some now' \<rparr> \<and>
      map_of (wp_transactions (processDepositTransaction s d True now)) (tx_id (heap s d))
        = Some d \<and>
      map_of (wp_transactions
                (processDepositTransaction (processDepositTransaction s d True now) d True now'))
             (tx_id (heap s d))
        = Some d) \<and>
   (tx_amount (heap s d) < minDeposit \<or> maxDeposit < tx_amount (heap s d) \<longrightarrow>
      playerBalances (processDepositTransaction s d gatewayOk now) = playerBalances s \<and>
      tx_status (heap (processDepositTransaction s d gatewayOk now) d) = tx_failed)"
proof (intro conjI impI)
  assume "tx_amount (heap s d) < minDeposit \<or> maxDeposit < tx_amount (heap s d)"
  then show "playerBalances (processDepositTransaction s d gatewayOk now) = playerBalances s"
    and "tx_status (heap (processDepositTransaction s d gatewayOk now) d) = tx_failed"
    by (auto simp add: processDepositTransaction_def Let_def failTransaction_def)
next
  assume v: "minDeposit \<le> tx_amount (heap s d) \<and> tx_amount (heap s d) \<le> maxDeposit"
  then have once: "processDepositTransaction s d True now = approveDeposit s d now"
    by (simp add: processDepositTransaction_valid)
  have twice: "processDepositTransaction (approveDeposit s d now) d True now'
      = approveDeposit (approveDeposit s d now) d now'"
    using v by (simp add: processDepositTransaction_valid approveDeposit_effect)
  show "tx_status (heap (processDepositTransaction s d True now) d) = tx_completed"
    and "getPlayerBalance (processDepositTransaction s d True now) (tx_playerId (heap s d))
        = getPlayerBalance s (tx_playerId (heap s d)) + tx_amount (heap s d)"
    and "getPlayerBalance
        (processDepositTransaction (processDepositTransaction s d True now) d True now')
        (tx_playerId (heap s d))
        = getPlayerBalance s (tx_playerId (heap s d)) + 2 * tx_amount (heap s d)"
    and "heap (processDepositTransaction (processDepositTransaction s d True now) d True now') d
        = (heap (processDepositTransaction s d True now) d)\<lparr> tx_completedAt := Some now' \<rparr>"
    and "map_of (wp_transactions (processDepositTransaction s d True now)) (tx_id (heap s d))
        = Some d"
    by (simp_all add: once twice approveDeposit_effect)
  have "map_of (wp_transactions (approveDeposit (approveDeposit s d now) d now'))
          (tx_id (heap (approveDeposit s d now) d)) = Some d"
    by (rule approveDeposit_effect)
  then show "map_of (wp_transactions
                (processDepositTransaction (processDepositTransaction s d True now) d True now'))
             (tx_id (heap s d))
        = Some d"
    by (simp add: once twice approveDeposit_effect)
qed

theorem processing_twice_credits_twice_witness:
  "minDeposit \<le> tx_amount (heap wp_run1 0) \<and> tx_amount (heap wp_run1 0) \<le> maxDeposit \<and>
   tx_playerId (heap wp_run1 0) = ''erin'' \<and> getPlayerBalance wp_run1 ''erin'' = 0 \<and>
   tx_status (heap (processDepositTransaction wp_run1 0 True 2) 0) = tx_completed \<and>
   getPlayerBalance (processDepositTransaction wp_run1 0 True 2) ''erin'' = 600 \<and>
   getPlayerBalance
     (processDepositTransaction (processDepositTransaction wp_run1 0 True 2) 0 True 3) ''erin''
     = 1200 \<and>
   map_of (wp_transactions
             (processDepositTransaction (processDepositTransaction wp_run1 0 True 2) 0 True 3))
          ''dep_1_aaa'' = Some 0 \<and>
   tx_amount (heap wp_small 0) < minDeposit \<and>
   playerBalances (processDepositTransaction wp_small 0 True 2) = playerBalances wp_small \<and>
   tx_status (heap (processDepositTransaction wp_small 0 True 2) 0) = tx_failed"
proof -
  have v: "minDeposit \<le> tx_amount (heap wp_run1 0) \<and> tx_amount (heap wp_run1 0) \<le> maxDeposit"
    by (simp add: wp_run1_fields minDeposit_def maxDeposit_def)
  have b: "getPlayerBalance wp_run1 ''erin'' = 0"
    by (simp add: getPlayerBalance_def wp_run1_fields)
  have u: "tx_amount (heap wp_small 0) < minDeposit"
    by (simp add: wp_small_def processDeposit_def Let_def newWalletProcessor_fields minDeposit_def)
  have small: "playerBalances (processDepositTransaction wp_small 0 True 2) = playerBalances wp_small \<and>
      tx_status (heap (processDepositTransaction wp_small 0 True 2) 0) = tx_failed"
    using processing_twice_credits_twice [of wp_small 0 2 3 True] u by blast
  show ?thesis
    using processing_twice_credits_twice [of wp_run1 0 2 3] v b u small
    by (simp add: wp_run1_fields)
qed

subsection \<open>Balances below zero\<close>

lemma wp_overdraw_fields:
  "playerBalances wp_overdraw = [''erin'' \<mapsto> 600]"
  "heap wp_overdraw (Suc 0) =
     \<lparr> tx_id = ''wd_3_ccc'', tx_playerId = ''erin'', tx_type = tx_withdrawal, tx_amount = - 700,
       tx_status = tx_pending, tx_timestamp = 3, tx_matchId = None, tx_completedAt = None,
       tx_error = None, tx_retryCount = None \<rparr>"
  by (simp_all add: wp_overdraw_def processWithdrawal_def Let_def wp_run2_fields
      showNat_digit digitChar_def)

lemma withdrawal_overdraw_fails:
  assumes "getPlayerBalance w (tx_playerId (heap w r)) + tx_amount (heap w r) < 0"
  shows "playerBalances (processWithdrawalTransaction w r now) = playerBalances w"
    and "tx_status (heap (processWithdrawalTransaction w r now) r) = tx_failed"
proof -
  have "tx_amount (heap w r) < minWithdrawal \<or>
        getPlayerBalance w (tx_playerId (heap w r)) < \<bar>tx_amount (heap w r)\<bar>"
    using assms by (simp add: minWithdrawal_def) linarith
  then show "playerBalances (processWithdrawalTransaction w r now) = playerBalances w"
    and "tx_status (heap (processWithdrawalTransaction w r now) r) = tx_failed"
    by (auto simp add: processWithdrawalTransaction_def Let_def failTransaction_def)
qed

lemma sa_nonneg_deductFromWallet:
  "\<forall>v. 0 \<le> getWalletBalance s v \<Longrightarrow> 0 \<le> getWalletBalance (snd (deductFromWallet s u a)) v"
  by (simp add: getWalletBalance_deductFromWallet)

text \<open>
  \<^bold>\<open>C4\<close>, as stated (in every reachable state of the wallet system every balance is at
  least zero), fails: \<^verbatim>\<open>creditToWallet\<close> takes any amount, and a credit of -5 to a new
  wallet leaves the balance -5.
\<close>

theorem no_negative_balance_counterexample:
  "sa_reachable (creditToWallet newSimpleAutomation ''mallory'' (- 5)) \<and>
   getWalletBalance (creditToWallet newSimpleAutomation ''mallory'' (- 5)) ''mallory'' = - 5 \<and>
   getWalletBalance (creditToWallet newSimpleAutomation ''mallory'' (- 5)) ''mallory'' < 0"
  by (simp add: getWalletBalance_creditToWallet sa_reachable.intros)
     (simp add: getWalletBalance_def newSimpleAutomation_def)

text \<open>
  \<^bold>\<open>C4\<close>, amended. In every state that a \<^verbatim>\<open>WalletProcessor\<close> can reach, every player
  balance is at least zero. A withdrawal that would take the balance below zero is failed
  by \<^verbatim>\<open>processWithdrawalTransaction\<close> and no balance is touched. A withdrawal approved out
  of review by its timer is applied without a new look at the balance, and the balances
  are at least zero afterwards all the same, as the amount check has passed before the
  review. In \<^verbatim>\<open>SimpleAutomation\<close>, \<^verbatim>\<open>deductFromWallet\<close> rejects a debit above the balance
  and returns the state as it was; and when no balance is negative, none is negative after
  \<^verbatim>\<open>deductFromWallet\<close>, \<^verbatim>\<open>createMatch\<close>, \<^verbatim>\<open>completeMatch\<close>, and \<^verbatim>\<open>creditToWallet\<close> with an
  amount that is not negative.
\<close>

theorem debits_keep_balances_nonnegative:
  "(wp_reachable w \<longrightarrow> (\<forall>p. 0 \<le> getPlayerBalance w p)) \<and>
   (getPlayerBalance w (tx_playerId (heap w r)) + tx_amount (heap w r) < 0 \<longrightarrow>
      playerBalances (processWithdrawalTransaction w r now) = playerBalances w \<and>
      tx_status (heap (processWithdrawalTransaction w r now) r) = tx_failed) \<and>
   (wp_reachable w \<and> map_of (wp_timers w) h = Some (ReviewApproval r) \<longrightarrow>
      (\<forall>p. 0 \<le> getPlayerBalance (fireTimer w h gateway now) p)) \<and>
   (getWalletBalance s userId < amount \<longrightarrow> deductFromWallet s userId amount = (False, s)) \<and>
   ((\<forall>v. 0 \<le> getWalletBalance s v) \<longrightarrow>
      (\<forall>v. 0 \<le> getWalletBalance (snd (deductFromWallet s userId amount)) v) \<and>
      (\<forall>v. 0 \<le> getWalletBalance (snd (createMatch s player1 player2 betAmount now rnd)) v) \<and>
      (\<forall>v. 0 \<le> getWalletBalance (completeMatch s matchId winnerId now) v) \<and>
      (0 \<le> amount \<longrightarrow> (\<forall>v. 0 \<le> getWalletBalance (creditToWallet s userId amount) v)))"
proof (intro conjI impI allI)
  fix p assume "wp_reachable w"
  then show "0 \<le> getPlayerBalance w p"
    using wp_reachable_inv [of w] by (simp add: wp_inv_def)
next
  assume "getPlayerBalance w (tx_playerId (heap w r)) + tx_amount (heap w r) < 0"
  then show "playerBalances (processWithdrawalTransaction w r now) = playerBalances w"
    and "tx_status (heap (processWithdrawalTransaction w r now) r) = tx_failed"
    by (rule withdrawal_overdraw_fails)+
next
  fix p assume "wp_reachable w \<and> map_of (wp_timers w) h = Some (ReviewApproval r)"
  then have "wp_reachable (fireTimer w h gateway now)"
    by (simp add: wp_reachable.intros)
  then show "0 \<le> getPlayerBalance (fireTimer w h gateway now) p"
    using wp_reachable_inv [of "fireTimer w h gateway now"] by (simp add: wp_inv_def)
next
  assume "getWalletBalance s userId < amount"
  then show "deductFromWallet s userId amount = (False, s)"
    by (simp add: deductFromWallet_def Let_def)
next
  fix v assume nn: "\<forall>v. 0 \<le> getWalletBalance s v"
  show "0 \<le> getWalletBalance (snd (deductFromWallet s userId amount)) v"
    using nn by (rule sa_nonneg_deductFromWallet)
  have "\<forall>v. 0 \<le> getWalletBalance (snd (deductFromWallet s player1 betAmount)) v"
    using nn by (simp add: sa_nonneg_deductFromWallet)
  then show "0 \<le> getWalletBalance (snd (createMatch s player1 player2 betAmount now rnd)) v"
    unfolding getWalletBalance_createMatch by (rule sa_nonneg_deductFromWallet)
  show "0 \<le> getWalletBalance (completeMatch s matchId winnerId now) v"
  proof (cases "matches s matchId")
    case None
    with nn show ?thesis by (simp add: completeMatch_unknown)
  next
    case (Some m)
    have "0 \<le> getWalletBalance s winnerId" "0 \<le> getWalletBalance s ''developer''"
      "0 \<le> getWalletBalance s v"
      using nn by simp_all
    then show ?thesis
      by (simp add: getWalletBalance_completeMatch [OF Some] getWalletBalance_creditToWallet)
  qed
next
  fix v assume nn: "\<forall>v. 0 \<le> getWalletBalance s v" and a: "0 \<le> amount"
  have "0 \<le> getWalletBalance s userId" "0 \<le> getWalletBalance s v"
    using nn by simp_all
  with a show "0 \<le> getWalletBalance (creditToWallet s userId amount) v"
    by (simp add: getWalletBalance_creditToWallet)
qed

theorem debits_keep_balances_nonnegative_witness:
  "wp_reachable wp_run4 \<and> getPlayerBalance wp_run4 ''erin'' = 600 \<and>
   getPlayerBalance wp_overdraw (tx_playerId (heap wp_overdraw 1)) + tx_amount (heap wp_overdraw 1)
     < 0 \<and>
   playerBalances (processWithdrawalTransaction wp_overdraw 1 4) = playerBalances wp_overdraw \<and>
   tx_status (heap (processWithdrawalTransaction wp_overdraw 1 4) 1) = tx_failed \<and>
   map_of (wp_timers wp_run4) 6 = Some (ReviewApproval 1) \<and>
   0 \<le> getPlayerBalance (fireTimer wp_run4 6 (\<lambda>k. True) 5) ''erin'' \<and>
   getWalletBalance demo_poor ''carol'' < 10 \<and>
   deductFromWallet demo_poor ''carol'' 10 = (False, demo_poor) \<and>
   (\<forall>v. 0 \<le> getWalletBalance demo_funded v) \<and>
   (\<forall>v. 0 \<le> getWalletBalance (snd (deductFromWallet demo_funded ''alice'' 30)) v) \<and>
   (\<forall>v. 0 \<le> getWalletBalance (creditToWallet demo_funded ''alice'' 7) v) \<and>
   (\<forall>v. 0 \<le> getWalletBalance demo_created v) \<and>
   (\<forall>v. 0 \<le> getWalletBalance demo_completed v)"
proof -
  note inst = debits_keep_balances_nonnegative
  have o: "getPlayerBalance wp_overdraw (tx_playerId (heap wp_overdraw 1))
             + tx_amount (heap wp_overdraw 1) < 0"
    by (simp add: wp_overdraw_fields getPlayerBalance_def)
  have t: "map_of (wp_timers wp_run4) 6 = Some (ReviewApproval 1)"
    by (simp add: wp_run4_fields newWalletProcessor_fields)
  have c: "getWalletBalance demo_poor ''carol'' < 10"
    by (simp add: demo_poor_balance)
  have f: "\<forall>v. 0 \<le> getWalletBalance demo_funded v"
    by (simp add: demo_funded_balance)
  have w1: "playerBalances (processWithdrawalTransaction wp_overdraw 1 4)
              = playerBalances wp_overdraw \<and>
            tx_status (heap (processWithdrawalTransaction wp_overdraw 1 4) 1) = tx_failed"
    using inst [of wp_overdraw 1 4] o by blast
  have w2: "0 \<le> getPlayerBalance (fireTimer wp_run4 6 (\<lambda>k. True) 5) ''erin''"
    using inst [of wp_run4 1 5 6 "\<lambda>k. True"] wp_reachable_run4 t by blast
  have w3: "deductFromWallet demo_poor ''carol'' 10 = (False, demo_poor)"
    using inst [of _ _ _ _ _ demo_poor "''carol''" 10] c by blast
  have w4: "\<forall>v. 0 \<le> getWalletBalance demo_created v"
    using inst [of _ _ 5 _ _ demo_funded _ _ "''alice''" "''bob''" 10 "''k3x9q2m1z''"] f
    unfolding demo_created_def by blast
  have w5: "\<forall>v. 0 \<le> getWalletBalance demo_completed v"
    using inst [of _ _ 6 _ _ demo_created _ _ _ _ _ _ demo_matchId "''alice''"] w4
    unfolding demo_completed_def by blast
  have w6: "\<forall>v. 0 \<le> getWalletBalance (snd (deductFromWallet demo_funded ''alice'' 30)) v"
    using inst [of _ _ _ _ _ demo_funded "''alice''" 30] f by blast
  have w7: "\<forall>v. 0 \<le> getWalletBalance (creditToWallet demo_funded ''alice'' 7) v"
    using inst [of _ _ _ _ _ demo_funded "''alice''" 7] f by simp
  have b: "getPlayerBalance wp_run4 ''erin'' = 600"
    by (simp add: getPlayerBalance_def wp_run4_fields)
  show ?thesis
    using wp_reachable_run4 b o w1 w2 t c w3 f w4 w5 w6 w7 by simp
qed

section \<open>Properties of GameProcessor\<close>

subsection \<open>The refund of a cancelled match\<close>

lemma refund_fold_frame:
  "matchHeap (fold (\<lambda>r st. refundPlayer st m r now) rs s) = matchHeap s"
  "gp_matches (fold (\<lambda>r st. refundPlayer st m r now) rs s) = gp_matches s"
  "gp_intervals (fold (\<lambda>r st. refundPlayer st m r now) rs s) = gp_intervals s"
  "gp_timers (fold (\<lambda>r st. refundPlayer st m r now) rs s) = gp_timers s"
  "gp_players (fold (\<lambda>r st. refundPlayer st m r now) rs s) = gp_players s"
  by (induction rs arbitrary: s) (simp_all add: refundPlayer_def createTransaction_def Let_def)

lemma refund_fold_player:
  "playerHeap (fold (\<lambda>r st. refundPlayer st m r now) rs s) x =
     (playerHeap s x)\<lparr> p_walletBalance :=
        p_walletBalance (playerHeap s x) + cfg_betAmount * int (count_list rs x) \<rparr>"
proof (induction rs arbitrary: s)
  case Nil
  show ?case by simp
next
  case (Cons r rs)
  show ?case
    by (simp add: Cons.IH) (simp add: refundPlayer_def createTransaction_def Let_def algebra_simps)
qed

lemma refund_fold_transactions:
  "gp_transactions (fold (\<lambda>r st. refundPlayer st m r now) rs s) =
     gp_transactions s @
       map (\<lambda>r. refundTransaction (g_id (matchHeap s m)) (p_id (playerHeap s r)) now) rs"
proof (induction rs arbitrary: s)
  case Nil
  show ?case by simp
next
  case (Cons r rs)
  have h: "matchHeap (refundPlayer s m r now) = matchHeap s"
    by (simp add: refundPlayer_def createTransaction_def Let_def)
  have p: "p_id (playerHeap (refundPlayer s m r now) x) = p_id (playerHeap s x)" for x
    by (simp add: refundPlayer_def createTransaction_def Let_def)
  have t: "gp_transactions (refundPlayer s m r now) =
      gp_transactions s @ [refundTransaction (g_id (matchHeap s m)) (p_id (playerHeap s r)) now]"
    by (simp add: refundPlayer_def createTransaction_def Let_def)
  show ?case
    by (simp add: Cons.IH h p t)
qed

lemma processCancelledMatch_retained:
  assumes "case g_endTime (matchHeap s m) of None \<Rightarrow> True | Some e \<Rightarrow> e = 0 \<or> now \<le> e + 1800000"
  shows "processCancelledMatch s matchId m now = processAutomaticRefund s m now"
  using assms
  by (auto simp add: processCancelledMatch_def processAutomaticRefund_def Let_def
      refund_fold_frame split: option.splits)

lemma processCancelledMatch_player:
  "playerHeap (processCancelledMatch s matchId m now) x =
     playerHeap (processAutomaticRefund s m now) x"
  by (simp add: processCancelledMatch_def Let_def cleanupMatch_def gp_clearTimer_def
      split: option.splits)

lemma processCancelledMatch_transactions:
  "gp_transactions (processCancelledMatch s matchId m now) =
     gp_transactions (processAutomaticRefund s m now)"
  by (simp add: processCancelledMatch_def Let_def cleanupMatch_def gp_clearTimer_def
      split: option.splits)

lemma processCancelledMatch_matchHeap:
  "matchHeap (processCancelledMatch s matchId m now) = matchHeap s"
  by (simp add: processCancelledMatch_def Let_def cleanupMatch_def gp_clearTimer_def
      processAutomaticRefund_def refund_fold_frame split: option.splits)

lemma players_fold_frame:
  "p_walletBalance (playerHeap (fold (\<lambda>entry st. processPlayerState st (snd entry) now) ps st) r)
     = p_walletBalance (playerHeap st r)"
  "gp_transactions (fold (\<lambda>entry st. processPlayerState st (snd entry) now) ps st)
     = gp_transactions st"
  by (induction ps arbitrary: st) (simp_all add: processPlayerState_def split: option.splits)

lemma processMainLoop_single:
  "gp_matches s = [(k, m)] \<Longrightarrow>
   processMainLoop s pick now =
     fold (\<lambda>entry st. processPlayerState st (snd entry) now)
       (gp_players (processMatchState s k m (pick k) now))
       (processMatchState s k m (pick k) now)"
  by (simp add: processMainLoop_def Let_def)

subsection \<open>A sweep over a well-formed match map\<close>

lemma touchesOnly_refl: "touchesOnly k m s s"
  by (simp add: touchesOnly_def)

lemma touchesOnly_trans:
  "touchesOnly k m a b \<Longrightarrow> touchesOnly k m b c \<Longrightarrow> touchesOnly k m a c"
  unfolding touchesOnly_def by (elim conjE exE, intro conjI) auto

lemma ownEntry_touchesOnly: "ownEntry k m a \<Longrightarrow> touchesOnly k m a b \<Longrightarrow> ownEntry k m b"
  unfolding touchesOnly_def ownEntry_def by auto

lemma touchesOnly_fold:
  assumes "\<And>x st. ownEntry k m st \<Longrightarrow> touchesOnly k m st (f x st)" and "ownEntry k m s"
  shows "touchesOnly k m s (fold f xs s)"
  using assms(2)
proof (induction xs arbitrary: s)
  case Nil
  show ?case by (simp add: touchesOnly_refl)
next
  case (Cons x xs)
  have a: "touchesOnly k m s (f x s)"
    using Cons.prems by (rule assms(1))
  have "ownEntry k m (f x s)"
    using Cons.prems a by (rule ownEntry_touchesOnly)
  then have "touchesOnly k m (f x s) (fold f xs (f x s))"
    by (rule Cons.IH)
  with a show ?case
    by (simp add: touchesOnly_trans)
qed

lemma touchesOnly_matchHeap_update:
  "g_id x = g_id (matchHeap s m) \<Longrightarrow>
   touchesOnly k m s (s\<lparr> matchHeap := (matchHeap s)(m := x) \<rparr>)"
  by (simp add: touchesOnly_def)

lemma touchesOnly_cancelMatch: "ownEntry k m s \<Longrightarrow> touchesOnly k m s (cancelMatch s k now)"
  by (auto simp add: ownEntry_def cancelMatch_def touchesOnly_def)

lemma touchesOnly_endMatch: "ownEntry k m s \<Longrightarrow> touchesOnly k m s (endMatch s k)"
  by (auto simp add: ownEntry_def endMatch_def touchesOnly_def)

lemma touchesOnly_cleanupMatch: "touchesOnly k m s (cleanupMatch s k)"
  by (auto simp add: cleanupMatch_def touchesOnly_def Let_def gp_clearTimer_def delete_conv'
      split: option.splits)

lemma touchesOnly_setMatchTimer: "touchesOnly k m s (setMatchTimer s k')"
  by (simp add: setMatchTimer_def gp_setTimer_def Let_def touchesOnly_def)

lemma touchesOnly_deductBet: "ownEntry k m s \<Longrightarrow> touchesOnly k m s (deductBet s m r now)"
proof -
  assume own: "ownEntry k m s"
  then have id: "g_id (matchHeap s m) = k"
    by (simp add: ownEntry_def)
  show ?thesis
  proof (cases "cfg_betAmount \<le> p_walletBalance (playerHeap s r)")
    case True
    then show ?thesis
      by (simp add: deductBet_def Let_def createTransaction_def touchesOnly_def)
  next
    case False
    then show ?thesis
      using touchesOnly_cancelMatch [OF own] by (simp add: deductBet_def Let_def id)
  qed
qed

lemma touchesOnly_processAutomaticBetDeduction:
  "ownEntry k m s \<Longrightarrow> touchesOnly k m s (processAutomaticBetDeduction s m now)"
  unfolding processAutomaticBetDeduction_def
  by (rule touchesOnly_fold) (simp_all add: touchesOnly_deductBet)

lemma touchesOnly_processAutomaticPayout: "touchesOnly k m s (processAutomaticPayout s m now)"
  by (simp add: processAutomaticPayout_def Let_def createTransaction_def touchesOnly_def
      split: option.splits)

lemma touchesOnly_refundPlayer: "touchesOnly k m s (refundPlayer s m r now)"
  by (simp add: refundPlayer_def Let_def createTransaction_def touchesOnly_def)

lemma touchesOnly_fold_any:
  assumes "\<And>x st. touchesOnly k m st (f x st)"
  shows "touchesOnly k m s (fold f xs s)"
proof (induction xs arbitrary: s)
  case Nil
  show ?case by (simp add: touchesOnly_refl)
next
  case (Cons x xs)
  have "touchesOnly k m s (f x s)" by (rule assms)
  moreover have "touchesOnly k m (f x s) (fold f xs (f x s))" by (rule Cons.IH)
  ultimately show ?case by (simp add: touchesOnly_trans)
qed

lemma touchesOnly_processAutomaticRefund: "touchesOnly k m s (processAutomaticRefund s m now)"
  unfolding processAutomaticRefund_def
  by (rule touchesOnly_fold_any) (rule touchesOnly_refundPlayer)

lemma touchesOnly_processWaitingMatch:
  assumes own: "ownEntry k m s"
  shows "touchesOnly k m s (processWaitingMatch s k m now)"
proof -
  define s1 where "s1 =
            (case g_players (matchHeap s m) of
               [first] \<Rightarrow>
                 (case findAvailableOpponent s (p_id (playerHeap s first)) of
                    None \<Rightarrow> s
                  | Some opponent \<Rightarrow>
                      (let sa = s\<lparr> matchHeap := (matchHeap s)(m := (matchHeap s m)
                                     \<lparr> g_players := [first, opponent], g_status := active,
                                       g_startTime := Some now \<rparr>) \<rparr>;
                           sb = processAutomaticBetDeduction sa m now
                       in setMatchTimer sb k))
             | _ \<Rightarrow> s)"
  have paired: "touchesOnly k m s
      (setMatchTimer (processAutomaticBetDeduction
         (s\<lparr> matchHeap := (matchHeap s)(m := (matchHeap s m)
              \<lparr> g_players := [first, opponent], g_status := active,
                g_startTime := Some now \<rparr>) \<rparr>) m now) k)" for first opponent
  proof -
    let ?sa = "s\<lparr> matchHeap := (matchHeap s)(m := (matchHeap s m)
              \<lparr> g_players := [first, opponent], g_status := active,
                g_startTime := Some now \<rparr>) \<rparr>"
    have a: "touchesOnly k m s ?sa"
      by (rule touchesOnly_matchHeap_update) simp
    have "ownEntry k m ?sa"
      using own a by (rule ownEntry_touchesOnly)
    then have b: "touchesOnly k m ?sa (processAutomaticBetDeduction ?sa m now)"
      by (rule touchesOnly_processAutomaticBetDeduction)
    have c: "touchesOnly k m (processAutomaticBetDeduction ?sa m now)
        (setMatchTimer (processAutomaticBetDeduction ?sa m now) k)"
      by (rule touchesOnly_setMatchTimer)
    show ?thesis
      using a b c by (blast intro: touchesOnly_trans)
  qed
  have t1: "touchesOnly k m s s1"
    unfolding s1_def
    by (simp add: touchesOnly_refl paired Let_def split: list.splits option.splits)
  have own1: "ownEntry k m s1"
    using own t1 by (rule ownEntry_touchesOnly)
  have t2: "touchesOnly k m s1
      (case g_createdAt (matchHeap s1 m) of
           None \<Rightarrow> s1
         | Some c \<Rightarrow> if c \<noteq> 0 \<and> now > c + 120000 then cancelMatch s1 k now else s1)"
    by (simp add: touchesOnly_refl touchesOnly_cancelMatch [OF own1] split: option.splits)
  have "processWaitingMatch s k m now =
      (case g_createdAt (matchHeap s1 m) of
           None \<Rightarrow> s1
         | Some c \<Rightarrow> if c \<noteq> 0 \<and> now > c + 120000 then cancelMatch s1 k now else s1)"
    by (simp only: processWaitingMatch_def s1_def Let_def)
  with t1 t2 show ?thesis
    by (simp add: touchesOnly_trans)
qed

lemma touchesOnly_processActiveMatch:
  assumes own: "ownEntry k m s"
  shows "touchesOnly k m s (processActiveMatch s k m now)"
proof -
  have a: "touchesOnly k m s
      (s\<lparr> matchHeap := (matchHeap s)(m := (matchHeap s m)\<lparr> g_timeRemaining := tr \<rparr>) \<rparr>)" for tr
    by (rule touchesOnly_matchHeap_update) simp
  have b: "touchesOnly k m s
      (endMatch (s\<lparr> matchHeap := (matchHeap s)(m := (matchHeap s m)
                      \<lparr> g_timeRemaining := tr \<rparr>) \<rparr>) k)" for tr
  proof -
    let ?s1 = "s\<lparr> matchHeap := (matchHeap s)(m := (matchHeap s m)\<lparr> g_timeRemaining := tr \<rparr>) \<rparr>"
    have "ownEntry k m ?s1"
      using own a by (rule ownEntry_touchesOnly)
    then have "touchesOnly k m ?s1 (endMatch ?s1 k)"
      by (rule touchesOnly_endMatch)
    with a show ?thesis
      by (rule touchesOnly_trans)
  qed
  show ?thesis
    by (simp add: processActiveMatch_def Let_def touchesOnly_refl a b split: option.splits)
qed

lemma touchesOnly_processFinishingMatch:
  "touchesOnly k m s (processFinishingMatch s k m pick now)"
proof (cases "determineMatchWinner s m pick")
  case None
  then show ?thesis by (simp add: processFinishingMatch_def touchesOnly_refl)
next
  case (Some winner)
  let ?s1 = "s\<lparr> matchHeap := (matchHeap s)(m := (matchHeap s m)
                   \<lparr> g_winner := Some winner, g_status := completed, g_endTime := Some now \<rparr>) \<rparr>"
  have a: "touchesOnly k m s ?s1"
    by (rule touchesOnly_matchHeap_update) simp
  have "touchesOnly k m ?s1 (processAutomaticPayout ?s1 m now)"
    by (rule touchesOnly_processAutomaticPayout)
  with a have "touchesOnly k m s (processAutomaticPayout ?s1 m now)"
    by (rule touchesOnly_trans)
  then show ?thesis
    by (simp add: processFinishingMatch_def Some)
qed

lemma touchesOnly_processCompletedMatch: "touchesOnly k m s (processCompletedMatch s k m now)"
  by (simp add: processCompletedMatch_def touchesOnly_refl touchesOnly_cleanupMatch
      split: option.splits)

lemma touchesOnly_processCancelledMatch: "touchesOnly k m s (processCancelledMatch s k m now)"
proof -
  let ?s1 = "processAutomaticRefund s m now"
  have a: "touchesOnly k m s ?s1"
    by (rule touchesOnly_processAutomaticRefund)
  have "touchesOnly k m ?s1 (cleanupMatch ?s1 k)"
    by (rule touchesOnly_cleanupMatch)
  with a have b: "touchesOnly k m s (cleanupMatch ?s1 k)"
    by (rule touchesOnly_trans)
  show ?thesis
    using a b by (simp add: processCancelledMatch_def Let_def split: option.splits)
qed

lemma touchesOnly_processMatchState:
  "ownEntry k m s \<Longrightarrow> touchesOnly k m s (processMatchState s k m pick now)"
  by (simp add: processMatchState_def touchesOnly_processWaitingMatch
      touchesOnly_processActiveMatch touchesOnly_processFinishingMatch
      touchesOnly_processCompletedMatch touchesOnly_processCancelledMatch
      split: GameMatchStatus.splits)

lemma touchesOnly_visit:
  assumes "g_id (matchHeap st (snd entry)) = fst entry"
  shows "touchesOnly (fst entry) (snd entry) st
           (if map_of (gp_matches st) (fst entry) = Some (snd entry)
            then processMatchState st (fst entry) (snd entry) pick now else st)"
proof (cases "map_of (gp_matches st) (fst entry) = Some (snd entry)")
  case True
  then have "ownEntry (fst entry) (snd entry) st"
    using assms by (simp add: ownEntry_def)
  then show ?thesis
    using True by (simp add: touchesOnly_processMatchState)
next
  case False
  then show ?thesis by (simp add: touchesOnly_refl)
qed

lemma sweep_fold:
  assumes "\<forall>entry \<in> set zs. g_id (matchHeap st (snd entry)) = fst entry"
  shows "(\<exists>new. gp_transactions
                  (fold (\<lambda>entry st.
                           if map_of (gp_matches st) (fst entry) = Some (snd entry)
                           then processMatchState st (fst entry) (snd entry) (draw (fst entry)) now
                           else st) zs st)
                = gp_transactions st @ new) \<and>
         (\<forall>m. g_id (matchHeap
                  (fold (\<lambda>entry st.
                           if map_of (gp_matches st) (fst entry) = Some (snd entry)
                           then processMatchState st (fst entry) (snd entry) (draw (fst entry)) now
                           else st) zs st) m)
               = g_id (matchHeap st m)) \<and>
         (\<forall>x. p_id (playerHeap
                  (fold (\<lambda>entry st.
                           if map_of (gp_matches st) (fst entry) = Some (snd entry)
                           then processMatchState st (fst entry) (snd entry) (draw (fst entry)) now
                           else st) zs st) x)
               = p_id (playerHeap st x)) \<and>
         (\<forall>kc mc. kc \<notin> fst ` set zs \<and> mc \<notin> snd ` set zs \<longrightarrow>
             map_of (gp_matches
                  (fold (\<lambda>entry st.
                           if map_of (gp_matches st) (fst entry) = Some (snd entry)
                           then processMatchState st (fst entry) (snd entry) (draw (fst entry)) now
                           else st) zs st)) kc
               = map_of (gp_matches st) kc \<and>
             matchHeap
                  (fold (\<lambda>entry st.
                           if map_of (gp_matches st) (fst entry) = Some (snd entry)
                           then processMatchState st (fst entry) (snd entry) (draw (fst entry)) now
                           else st) zs st) mc
               = matchHeap st mc)"
  using assms
proof (induction zs arbitrary: st)
  case Nil
  show ?case by simp
next
  case (Cons e zs)
  let ?visit = "\<lambda>entry st.
                  if map_of (gp_matches st) (fst entry) = Some (snd entry)
                  then processMatchState st (fst entry) (snd entry) (draw (fst entry)) now
                  else st"
  let ?st' = "?visit e st"
  have t: "touchesOnly (fst e) (snd e) st ?st'"
    using Cons.prems by (intro touchesOnly_visit) simp
  have ids: "\<forall>entry \<in> set zs. g_id (matchHeap ?st' (snd entry)) = fst entry"
    using Cons.prems t unfolding touchesOnly_def by simp
  note ih = Cons.IH [OF ids]
  have f: "fold ?visit (e # zs) st = fold ?visit zs ?st'"
    by simp
  from t obtain new1 where n1: "gp_transactions ?st' = gp_transactions st @ new1"
    unfolding touchesOnly_def by blast
  from ih obtain new2 where n2: "gp_transactions (fold ?visit zs ?st') = gp_transactions ?st' @ new2"
    by blast
  have c1: "\<exists>new. gp_transactions (fold ?visit (e # zs) st) = gp_transactions st @ new"
    unfolding f using n1 n2 by simp
  have c2: "\<forall>m. g_id (matchHeap (fold ?visit (e # zs) st) m) = g_id (matchHeap st m)"
    unfolding f using ih t unfolding touchesOnly_def by simp
  have c3: "\<forall>x. p_id (playerHeap (fold ?visit (e # zs) st) x) = p_id (playerHeap st x)"
    unfolding f using ih t unfolding touchesOnly_def by simp
  have c4: "\<forall>kc mc. kc \<notin> fst ` set (e # zs) \<and> mc \<notin> snd ` set (e # zs) \<longrightarrow>
      map_of (gp_matches (fold ?visit (e # zs) st)) kc = map_of (gp_matches st) kc \<and>
      matchHeap (fold ?visit (e # zs) st) mc = matchHeap st mc"
  proof (intro allI impI)
    fix kc mc assume out: "kc \<notin> fst ` set (e # zs) \<and> mc \<notin> snd ` set (e # zs)"
    then have ne: "kc \<noteq> fst e" "mc \<noteq> snd e" and rest: "kc \<notin> fst ` set zs \<and> mc \<notin> snd ` set zs"
      by auto
    have a: "map_of (gp_matches ?st') kc = map_of (gp_matches st) kc" "matchHeap ?st' mc = matchHeap st mc"
      using t ne unfolding touchesOnly_def by blast+
    have b: "map_of (gp_matches (fold ?visit zs ?st')) kc = map_of (gp_matches ?st') kc \<and>
        matchHeap (fold ?visit zs ?st') mc = matchHeap ?st' mc"
      using ih rest by blast
    show "map_of (gp_matches (fold ?visit (e # zs) st)) kc = map_of (gp_matches st) kc \<and>
      matchHeap (fold ?visit (e # zs) st) mc = matchHeap st mc"
      unfolding f using a b by simp
  qed
  show ?case
    using c1 c2 c3 c4 by blast
qed

lemma sweep_refunds_cancelled_match:
  assumes wf: "gp_wellformed s" and mem: "(k, m) \<in> set (gp_matches s)"
    and canc: "g_status (matchHeap s m) = cancelled"
  shows "\<exists>earlier later.
           gp_transactions (processMainLoop s draw now) =
             gp_transactions s @ earlier @
               map (\<lambda>r. refundTransaction (g_id (matchHeap s m)) (p_id (playerHeap s r)) now)
                   (g_players (matchHeap s m)) @ later"
proof -
  let ?visit = "\<lambda>entry st.
                  if map_of (gp_matches st) (fst entry) = Some (snd entry)
                  then processMatchState st (fst entry) (snd entry) (draw (fst entry)) now
                  else st"
  from mem obtain xs ys where split: "gp_matches s = xs @ (k, m) # ys"
    by (auto dest: split_list)
  have dk: "distinct (map fst (gp_matches s))" and dm: "distinct (map snd (gp_matches s))"
    and ids: "\<forall>entry \<in> set (gp_matches s). g_id (matchHeap s (snd entry)) = fst entry"
    using wf by (simp_all add: gp_wellformed_def)
  have out: "k \<notin> fst ` set xs \<and> m \<notin> snd ` set xs"
    using dk dm by (simp add: split)
  have look: "map_of (gp_matches s) k = Some m"
    using dk mem by (rule map_of_is_SomeI)
  let ?s1 = "fold ?visit xs s"
  have idsx: "\<forall>entry \<in> set xs. g_id (matchHeap s (snd entry)) = fst entry"
    using ids by (simp add: split)
  note fx = sweep_fold [OF idsx, of draw now]
  from fx obtain new1 where n1: "gp_transactions ?s1 = gp_transactions s @ new1"
    by blast
  have g1: "\<forall>m'. g_id (matchHeap ?s1 m') = g_id (matchHeap s m')"
    and p1: "\<forall>x. p_id (playerHeap ?s1 x) = p_id (playerHeap s x)"
    using fx by blast+
  have keep: "map_of (gp_matches ?s1) k = Some m" "matchHeap ?s1 m = matchHeap s m"
    using fx out look by auto
  let ?s2 = "processMatchState ?s1 k m (draw k) now"
  have v: "?visit (k, m) ?s1 = ?s2"
    using keep by simp
  have step: "?s2 = processCancelledMatch ?s1 k m now"
    using canc keep by (simp add: processMatchState_def)
  have n2: "gp_transactions ?s2 =
      gp_transactions ?s1 @
        map (\<lambda>r. refundTransaction (g_id (matchHeap s m)) (p_id (playerHeap s r)) now)
            (g_players (matchHeap s m))"
    by (simp add: step processCancelledMatch_transactions processAutomaticRefund_def
        refund_fold_transactions keep p1)
  have g2: "\<forall>m'. g_id (matchHeap ?s2 m') = g_id (matchHeap s m')"
    using g1 by (simp add: step processCancelledMatch_matchHeap)
  have idsy: "\<forall>entry \<in> set ys. g_id (matchHeap ?s2 (snd entry)) = fst entry"
    using ids g2 by (simp add: split)
  let ?s3 = "fold ?visit ys ?s2"
  from sweep_fold [OF idsy, of draw now] obtain new3
    where n3: "gp_transactions ?s3 = gp_transactions ?s2 @ new3"
    by blast
  have whole: "fold ?visit (gp_matches s) s = ?s3"
    by (simp only: split fold_append fold_simps comp_apply v)
  have "gp_transactions (processMainLoop s draw now) = gp_transactions ?s3"
    by (simp add: processMainLoop_def Let_def whole players_fold_frame)
  then have "gp_transactions (processMainLoop s draw now) =
      gp_transactions s @ new1 @
        map (\<lambda>r. refundTransaction (g_id (matchHeap s m)) (p_id (playerHeap s r)) now)
            (g_players (matchHeap s m)) @ new3"
    by (simp add: n1 n2 n3)
  then show ?thesis by blast
qed

text \<open>
  \<^bold>\<open>C8\<close>: the step that the main loop runs in each sweep for a match of the match set whose
  status is cancelled credits the configured bet of 10 to every player of the match, once
  for each time the player stands in the match's player list, and appends one completed
  refund transaction of that amount per player; the match stays cancelled. As long as the
  match is not older than the retention window of 30 minutes it also stays in the match
  set, so that the next sweep refunds it again: after two sweeps every player has been
  credited twice. When the match is the only one of the match set, these are the credits
  and the new transactions of the whole sweep; and whatever else a well-formed match set
  holds, the sweep appends these refund transactions to the transaction list.
\<close>

theorem cancelled_match_refunded_every_sweep:
  assumes "g_status (matchHeap s m) = cancelled"
  shows
    "cfg_betAmount = 10 \<and>
     (\<forall>r. p_walletBalance (playerHeap (processMatchState s matchId m pick now) r) =
           p_walletBalance (playerHeap s r)
             + cfg_betAmount * int (count_list (g_players (matchHeap s m)) r)) \<and>
     (\<forall>r \<in> set (g_players (matchHeap s m)).
           p_walletBalance (playerHeap s r) + cfg_betAmount
             \<le> p_walletBalance (playerHeap (processMatchState s matchId m pick now) r)) \<and>
     gp_transactions (processMatchState s matchId m pick now) =
       gp_transactions s @
         map (\<lambda>r. refundTransaction (g_id (matchHeap s m)) (p_id (playerHeap s r)) now)
             (g_players (matchHeap s m)) \<and>
     (\<forall>a b. tx_type (refundTransaction a b now) = tx_refund \<and>
            tx_status (refundTransaction a b now) = tx_completed \<and>
            tx_amount (refundTransaction a b now) = cfg_betAmount \<and>
            tx_matchId (refundTransaction a b now) = Some a \<and>
            tx_playerId (refundTransaction a b now) = b) \<and>
     g_status (matchHeap (processMatchState s matchId m pick now) m) = cancelled \<and>
     ((case g_endTime (matchHeap s m) of None \<Rightarrow> True | Some e \<Rightarrow> e = 0 \<or> now \<le> e + 1800000) \<longrightarrow>
        gp_matches (processMatchState s matchId m pick now) = gp_matches s \<and>
        (\<forall>r. p_walletBalance
                (playerHeap (processMatchState (processMatchState s matchId m pick now)
                                matchId m pick' now') r) =
              p_walletBalance (playerHeap s r)
                + 2 * cfg_betAmount * int (count_list (g_players (matchHeap s m)) r))) \<and>
     (gp_matches s = [(matchId, m)] \<longrightarrow>
        (\<forall>r. p_walletBalance (playerHeap (processMainLoop s draw now) r) =
              p_walletBalance (playerHeap s r)
                + cfg_betAmount * int (count_list (g_players (matchHeap s m)) r)) \<and>
        gp_transactions (processMainLoop s draw now) =
          gp_transactions s @
            map (\<lambda>r. refundTransaction (g_id (matchHeap s m)) (p_id (playerHeap s r)) now)
                (g_players (matchHeap s m))) \<and>
     (gp_wellformed s \<and> (matchId, m) \<in> set (gp_matches s) \<longrightarrow>
        (\<exists>earlier later.
           gp_transactions (processMainLoop s draw now) =
             gp_transactions s @ earlier @
               map (\<lambda>r. refundTransaction (g_id (matchHeap s m)) (p_id (playerHeap s r)) now)
                   (g_players (matchHeap s m)) @ later))"
proof -
  let ?s' = "processMatchState s matchId m pick now"
  have step: "processMatchState st matchId m pk t = processCancelledMatch st matchId m t"
    if "g_status (matchHeap st m) = cancelled" for st pk t
    using that by (simp add: processMatchState_def)
  have bal: "p_walletBalance (playerHeap (processMatchState st matchId m pk t) r) =
           p_walletBalance (playerHeap st r)
             + cfg_betAmount * int (count_list (g_players (matchHeap st m)) r)"
    if "g_status (matchHeap st m) = cancelled" for st pk t r
    by (simp add: step [OF that] processCancelledMatch_player processAutomaticRefund_def
        refund_fold_player)
  have heap': "matchHeap ?s' = matchHeap s"
    by (simp add: step [OF assms] processCancelledMatch_matchHeap)
  have c1: "\<forall>r. p_walletBalance (playerHeap ?s' r) =
           p_walletBalance (playerHeap s r)
             + cfg_betAmount * int (count_list (g_players (matchHeap s m)) r)"
    using bal [OF assms] by simp
  have c2: "\<forall>r \<in> set (g_players (matchHeap s m)).
           p_walletBalance (playerHeap s r) + cfg_betAmount \<le> p_walletBalance (playerHeap ?s' r)"
  proof
    fix r assume "r \<in> set (g_players (matchHeap s m))"
    then have "count_list (g_players (matchHeap s m)) r \<noteq> 0"
      by (simp add: count_list_0_iff)
    then have "1 \<le> int (count_list (g_players (matchHeap s m)) r)"
      by simp
    then have "cfg_betAmount * 1 \<le> cfg_betAmount * int (count_list (g_players (matchHeap s m)) r)"
      by (intro mult_left_mono) (simp_all add: cfg_betAmount_def)
    then show "p_walletBalance (playerHeap s r) + cfg_betAmount \<le> p_walletBalance (playerHeap ?s' r)"
      using c1 by simp
  qed
  have c3: "gp_transactions ?s' =
       gp_transactions s @
         map (\<lambda>r. refundTransaction (g_id (matchHeap s m)) (p_id (playerHeap s r)) now)
             (g_players (matchHeap s m))"
    by (simp add: step [OF assms] processCancelledMatch_transactions processAutomaticRefund_def
        refund_fold_transactions)
  have c4: "\<forall>a b. tx_type (refundTransaction a b now) = tx_refund \<and>
            tx_status (refundTransaction a b now) = tx_completed \<and>
            tx_amount (refundTransaction a b now) = cfg_betAmount \<and>
            tx_matchId (refundTransaction a b now) = Some a \<and>
            tx_playerId (refundTransaction a b now) = b"
    by (simp add: refundTransaction_def)
  have c5: "g_status (matchHeap ?s' m) = cancelled"
    using assms by (simp add: heap')
  have c6: "gp_matches ?s' = gp_matches s \<and>
        (\<forall>r. p_walletBalance
                (playerHeap (processMatchState ?s' matchId m pick' now') r) =
              p_walletBalance (playerHeap s r)
                + 2 * cfg_betAmount * int (count_list (g_players (matchHeap s m)) r))"
    if keep: "case g_endTime (matchHeap s m) of None \<Rightarrow> True | Some e \<Rightarrow> e = 0 \<or> now \<le> e + 1800000"
  proof -
    have "gp_matches ?s' = gp_matches s"
      by (simp add: step [OF assms] processCancelledMatch_retained [OF keep]
          processAutomaticRefund_def refund_fold_frame)
    moreover have "p_walletBalance (playerHeap (processMatchState ?s' matchId m pick' now') r) =
              p_walletBalance (playerHeap s r)
                + 2 * cfg_betAmount * int (count_list (g_players (matchHeap s m)) r)" for r
      using bal [OF c5, of pick' now' r] c1 by (simp add: heap' algebra_simps)
    ultimately show ?thesis by simp
  qed
  have c7: "(\<forall>r. p_walletBalance (playerHeap (processMainLoop s draw now) r) =
              p_walletBalance (playerHeap s r)
                + cfg_betAmount * int (count_list (g_players (matchHeap s m)) r)) \<and>
        gp_transactions (processMainLoop s draw now) =
          gp_transactions s @
            map (\<lambda>r. refundTransaction (g_id (matchHeap s m)) (p_id (playerHeap s r)) now)
                (g_players (matchHeap s m))"
    if single: "gp_matches s = [(matchId, m)]"
  proof -
    have "p_walletBalance (playerHeap (processMatchState s matchId m (draw matchId) now) r) =
           p_walletBalance (playerHeap s r)
             + cfg_betAmount * int (count_list (g_players (matchHeap s m)) r)" for r
      by (rule bal [OF assms])
    moreover have "gp_transactions (processMatchState s matchId m (draw matchId) now) =
       gp_transactions s @
         map (\<lambda>r. refundTransaction (g_id (matchHeap s m)) (p_id (playerHeap s r)) now)
             (g_players (matchHeap s m))"
      by (simp add: step [OF assms] processCancelledMatch_transactions processAutomaticRefund_def
          refund_fold_transactions)
    ultimately show ?thesis
      by (simp add: processMainLoop_single [OF single] players_fold_frame)
  qed
  have c8: "\<exists>earlier later.
           gp_transactions (processMainLoop s draw now) =
             gp_transactions s @ earlier @
               map (\<lambda>r. refundTransaction (g_id (matchHeap s m)) (p_id (playerHeap s r)) now)
                   (g_players (matchHeap s m)) @ later"
    if "gp_wellformed s \<and> (matchId, m) \<in> set (gp_matches s)"
    using that assms by (intro sweep_refunds_cancelled_match [of s matchId m]) simp_all
  have cfg: "cfg_betAmount = 10"
    by (simp add: cfg_betAmount_def)
  show ?thesis
    using cfg c1 c2 c3 c4 c5 c6 c7 c8 by blast
qed

subsection \<open>The concrete run, evaluated\<close>

lemma newGameProcessor_fields:
  "gp_matches newGameProcessor = []"
  "gp_players newGameProcessor = []"
  "gp_transactions newGameProcessor = []"
  "matchQueue newGameProcessor = []"
  "nextMatchRef newGameProcessor = 0"
  "nextPlayerRef newGameProcessor = 0"
  "gp_nextHandle newGameProcessor = 5"
  "gp_intervals newGameProcessor =
     [(''main'', 0), (''cleanup'', 1), (''queue'', 2), (''transactions'', 3), (''health'', 4)]"
  by (simp_all add: newGameProcessor_def startAutomatedProcessing_def Let_def gp_setTimer_def)

lemma gp_run1_fields:
  "gp_matches gp_run1 = []"
  "gp_players gp_run1 = [(''player_1_a'', 0), (''player_1_b'', Suc 0)]"
  "gp_transactions gp_run1 = []"
  "matchQueue gp_run1 = []"
  "nextMatchRef gp_run1 = 0"
  "gp_nextHandle gp_run1 = 5"
  "gp_intervals gp_run1 = gp_intervals newGameProcessor"
  "playerHeap gp_run1 0 =
     \<lparr> p_id = ''player_1_a'', p_name = ''Alice'', p_walletBalance = 100, p_status = online,
       p_lastActivity = Some 1 \<rparr>"
  "playerHeap gp_run1 (Suc 0) =
     \<lparr> p_id = ''player_1_b'', p_name = ''Bob'', p_walletBalance = 5, p_status = online,
       p_lastActivity = Some 1 \<rparr>"
  by (simp_all add: gp_run1_def createPlayer_def Let_def newGameProcessor_fields
      showNat_digit digitChar_def)

lemma gp_run2_eq: "gp_run2 = gp_run1\<lparr> matchQueue := [''player_1_a'', ''player_1_b''] \<rparr>"
  by (simp add: gp_run2_def addPlayerToQueue_def gp_run1_fields)

lemma gp_run3_eq:
  "gp_run3 = createAutomaticMatch (gp_run1\<lparr> matchQueue := [] \<rparr>) 0 (Suc 0) 2 ''m''"
  by (simp add: gp_run3_def processMatchQueue_def gp_run2_eq gp_run1_fields
      cfg_maxConcurrentMatches_def Let_def)

lemma gp_run3_fields:
  "gp_matches gp_run3 = [(''match_2_m'', 0)]"
  "gp_players gp_run3 = [(''player_1_a'', 0), (''player_1_b'', Suc 0)]"
  "map tx_type (gp_transactions gp_run3) = [tx_bet]"
  "matchHeap gp_run3 0 =
     \<lparr> g_id = ''match_2_m'', g_players = [0, Suc 0], g_status = cancelled, g_createdAt = Some 2,
       g_startTime = Some 2, g_endTime = Some 2, g_timeRemaining = Some 60000,
       g_betAmount = 10, g_winner = None \<rparr>"
  "playerHeap gp_run3 0 =
     \<lparr> p_id = ''player_1_a'', p_name = ''Alice'', p_walletBalance = 90, p_status = online,
       p_lastActivity = Some 1 \<rparr>"
  "playerHeap gp_run3 (Suc 0) =
     \<lparr> p_id = ''player_1_b'', p_name = ''Bob'', p_walletBalance = 5, p_status = online,
       p_lastActivity = Some 1 \<rparr>"
  by (simp_all add: gp_run3_eq createAutomaticMatch_def Let_def gp_run1_fields
      processAutomaticBetDeduction_def deductBet_def createTransaction_def cancelMatch_def
      setMatchTimer_def gp_setTimer_def cfg_betAmount_def cfg_matchDuration_def
      showNat_digit digitChar_def)

lemma processPlayerState_recent:
  "p_lastActivity (playerHeap st r) = Some a \<Longrightarrow> now \<le> a + 300000 \<Longrightarrow>
   processPlayerState st r now = st"
  by (simp add: processPlayerState_def)

lemma sweep_of_single_cancelled_match:
  assumes "gp_matches s = [(k, m)]" and "g_status (matchHeap s m) = cancelled"
    and "g_endTime (matchHeap s m) = Some e" and "now \<le> e + 1800000"
    and "\<forall>entry \<in> set (gp_players s). \<exists>a. p_lastActivity (playerHeap s (snd entry)) = Some a \<and>
           now \<le> a + 300000"
  shows "processMainLoop s pick now = processMatchState s k m (pick k) now"
    and "processMatchState s k m (pick k) now = processAutomaticRefund s m now"
proof -
  have keep: "case g_endTime (matchHeap s m) of None \<Rightarrow> True | Some e \<Rightarrow> e = 0 \<or> now \<le> e + 1800000"
    using assms(3,4) by simp
  show step: "processMatchState s k m (pick k) now = processAutomaticRefund s m now"
    using assms(2) by (simp add: processMatchState_def processCancelledMatch_retained [OF keep])
  let ?s1 = "processAutomaticRefund s m now"
  have pl: "gp_players ?s1 = gp_players s"
    by (simp add: processAutomaticRefund_def refund_fold_frame)
  have act: "p_lastActivity (playerHeap ?s1 r) = p_lastActivity (playerHeap s r)" for r
    by (simp add: processAutomaticRefund_def refund_fold_player)
  have idle: "fold (\<lambda>entry st. processPlayerState st (snd entry) now) ps ?s1 = ?s1"
    if "set ps \<subseteq> set (gp_players s)" for ps
    using that
  proof (induction ps)
    case Nil
    show ?case by simp
  next
    case (Cons p ps)
    then obtain a where "p_lastActivity (playerHeap s (snd p)) = Some a" "now \<le> a + 300000"
      using assms(5) by auto
    then have "processPlayerState ?s1 (snd p) now = ?s1"
      by (intro processPlayerState_recent [of _ _ a]) (simp_all add: act)
    with Cons show ?case by simp
  qed
  show "processMainLoop s pick now = processMatchState s k m (pick k) now"
    by (simp add: processMainLoop_def Let_def assms(1) step pl idle)
qed

lemma gp_run4_eq:
  "gp_run4 = processMatchState gp_run3 ''match_2_m'' 0 False 3"
  "gp_run4 = processAutomaticRefund gp_run3 0 3"
proof -
  have a: "\<forall>entry \<in> set (gp_players gp_run3).
      \<exists>a. p_lastActivity (playerHeap gp_run3 (snd entry)) = Some a \<and> 3 \<le> a + 300000"
    by (simp add: gp_run3_fields)
  note sw = sweep_of_single_cancelled_match [of gp_run3 "''match_2_m''" 0 2 3 "\<lambda>matchId. False", OF _ _ _ _ a]
  show "gp_run4 = processMatchState gp_run3 ''match_2_m'' 0 False 3"
    unfolding gp_run4_def by (rule sw) (simp_all add: gp_run3_fields)
  then show "gp_run4 = processAutomaticRefund gp_run3 0 3"
    using sw(2) by (simp add: gp_run3_fields)
qed

lemma gp_run4_fields:
  "gp_matches gp_run4 = [(''match_2_m'', 0)]"
  "gp_players gp_run4 = [(''player_1_a'', 0), (''player_1_b'', Suc 0)]"
  "matchHeap gp_run4 = matchHeap gp_run3"
  "p_lastActivity (playerHeap gp_run4 r) = p_lastActivity (playerHeap gp_run3 r)"
  by (simp_all add: gp_run4_eq(2) processAutomaticRefund_def refund_fold_frame refund_fold_player)
     (simp_all add: gp_run3_fields)

lemma gp_run5_eq: "gp_run5 = processMatchState gp_run4 ''match_2_m'' 0 False 4"
proof -
  have a: "\<forall>entry \<in> set (gp_players gp_run4).
      \<exists>a. p_lastActivity (playerHeap gp_run4 (snd entry)) = Some a \<and> 4 \<le> a + 300000"
    by (simp add: gp_run4_fields gp_run3_fields)
  show ?thesis
    unfolding gp_run5_def
    by (rule sweep_of_single_cancelled_match [of gp_run4 "''match_2_m''" 0 2 4 "\<lambda>matchId. False", OF _ _ _ _ a])
       (simp_all add: gp_run4_fields gp_run3_fields)
qed

theorem cancelled_match_refunded_every_sweep_witness:
  "map_of (gp_matches gp_run3) ''match_2_m'' = Some 0 \<and>
   g_status (matchHeap gp_run3 0) = cancelled \<and>
   g_players (matchHeap gp_run3 0) = [0, 1] \<and>
   gp_run4 = processMatchState gp_run3 ''match_2_m'' 0 False 3 \<and>
   gp_run5 = processMatchState gp_run4 ''match_2_m'' 0 False 4 \<and>
   map (\<lambda>r. p_walletBalance (playerHeap gp_run3 r)) [0, 1] = [90, 5] \<and>
   map (\<lambda>r. p_walletBalance (playerHeap gp_run4 r)) [0, 1] = [100, 15] \<and>
   map (\<lambda>r. p_walletBalance (playerHeap gp_run5 r)) [0, 1] = [110, 25] \<and>
   map tx_type (gp_transactions gp_run3) = [tx_bet] \<and>
   map tx_type (gp_transactions gp_run4) = [tx_bet, tx_refund, tx_refund] \<and>
   map tx_status (gp_transactions gp_run4) = [tx_completed, tx_completed, tx_completed] \<and>
   gp_matches gp_run3 = [(''match_2_m'', 0)] \<and>
   gp_wellformed gp_run3 \<and>
   gp_matches gp_run4 = gp_matches gp_run3"
proof -
  have wf: "gp_wellformed gp_run3"
    by (simp add: gp_wellformed_def gp_run3_fields)
  have c: "g_status (matchHeap gp_run3 0) = cancelled"
    by (simp add: gp_run3_fields)
  note inst = cancelled_match_refunded_every_sweep
                [OF c, of "''match_2_m''" False 3 False 4 "\<lambda>matchId. False"]
  have b4: "map (\<lambda>r. p_walletBalance (playerHeap gp_run4 r)) [0, 1] = [100, 15]"
    unfolding gp_run4_def using inst by (simp add: gp_run3_fields)
  have b5: "map (\<lambda>r. p_walletBalance (playerHeap gp_run5 r)) [0, 1] = [110, 25]"
    using inst by (simp add: gp_run5_eq gp_run4_eq(1) gp_run3_fields)
  have t4: "gp_transactions gp_run4 = gp_transactions gp_run3 @
      map (\<lambda>r. refundTransaction (g_id (matchHeap gp_run3 0)) (p_id (playerHeap gp_run3 r)) 3)
          (g_players (matchHeap gp_run3 0))"
    using inst by (simp add: gp_run4_eq(1))
  have ty: "map tx_type (gp_transactions gp_run4) = [tx_bet, tx_refund, tx_refund]"
    by (simp add: t4 gp_run3_fields refundTransaction_def)
  have st0: "map tx_status (gp_transactions gp_run3) = [tx_completed]"
    by (simp add: gp_run3_eq createAutomaticMatch_def Let_def gp_run1_fields
      processAutomaticBetDeduction_def deductBet_def createTransaction_def cancelMatch_def
      setMatchTimer_def gp_setTimer_def cfg_betAmount_def)
  have st: "map tx_status (gp_transactions gp_run4) = [tx_completed, tx_completed, tx_completed]"
    by (simp add: t4 st0 gp_run3_fields refundTransaction_def)
  show ?thesis
    using b4 b5 ty st wf gp_run4_eq(1) gp_run5_eq
    by (simp add: gp_run3_fields gp_run4_fields)
qed


subsection \<open>\<^verbatim>\<open>stop()\<close> of the game processor\<close>

text \<open>
  \<^verbatim>\<open>setMatchTimer\<close> enters the handle of its one-shot timer in the interval map, so that
  \<^verbatim>\<open>stop()\<close> of the game processor clears it with the tickers.
\<close>

lemma gp_stop_clears_match_timer:
  "gp_timers gp_run3 =
     [(0, MainLoop), (1, CleanupLoop), (2, QueueLoop), (3, TransactionLoop), (4, HealthLoop),
      (5, MatchTimer ''match_2_m'')]"
  "gp_timers (gp_stop gp_run3) = []"
proof -
  have t: "gp_timers newGameProcessor =
     [(0, MainLoop), (1, CleanupLoop), (2, QueueLoop), (3, TransactionLoop), (4, HealthLoop)]"
    by (simp add: newGameProcessor_def startAutomatedProcessing_def Let_def gp_setTimer_def)
  have t1: "gp_timers gp_run1 = gp_timers newGameProcessor"
    by (simp add: gp_run1_def createPlayer_def Let_def)
  have bd: "gp_timers (processAutomaticBetDeduction st m now) = gp_timers st"
      "gp_intervals (processAutomaticBetDeduction st m now) = gp_intervals st"
      "gp_nextHandle (processAutomaticBetDeduction st m now) = gp_nextHandle st" for st m now
    unfolding processAutomaticBetDeduction_def
    by (rule fold_preserves [where P = "\<lambda>x. gp_timers x = gp_timers st"]
             fold_preserves [where P = "\<lambda>x. gp_intervals x = gp_intervals st"]
             fold_preserves [where P = "\<lambda>x. gp_nextHandle x = gp_nextHandle st"],
        simp_all add: deductBet_def createTransaction_def cancelMatch_def Let_def
          split: option.splits)+
  show a: "gp_timers gp_run3 =
     [(0, MainLoop), (1, CleanupLoop), (2, QueueLoop), (3, TransactionLoop), (4, HealthLoop),
      (5, MatchTimer ''match_2_m'')]"
    by (simp add: gp_run3_eq createAutomaticMatch_def Let_def setMatchTimer_def gp_setTimer_def
        bd t1 t gp_run1_fields showNat_digit digitChar_def)
  have i: "gp_intervals gp_run3 =
     [(''main'', 0), (''cleanup'', 1), (''queue'', 2), (''transactions'', 3), (''health'', 4),
      (''match_match_2_m'', 5)]"
    by (simp add: gp_run3_eq createAutomaticMatch_def Let_def setMatchTimer_def gp_setTimer_def
        bd gp_run1_fields newGameProcessor_fields showNat_digit digitChar_def)
  show "gp_timers (gp_stop gp_run3) = []"
    by (simp add: gp_stop_def Let_def gp_clearTimer_def a i)
qed

end
